theory Spec2Isabelle
  imports Main "HOL-Library.Word"
begin

unbundle bit_operations_syntax

section \<open>The MPU module of the embedded controller (core/cortex-m/mpu.c)\<close>

text \<open>
  A shallow embedding of \<^verbatim>\<open>core/cortex-m/mpu.c\<close>. Every C function becomes a HOL
  function that takes the hardware state and returns the C return value together with
  the new state. The C integer types are words of their width: \<^verbatim>\<open>uint8_t\<close> is
  \<open>8 word\<close>, \<^verbatim>\<open>uint16_t\<close> is \<open>16 word\<close>, \<^verbatim>\<open>uint32_t\<close> is \<open>32 word\<close>, and every
  conversion at a call (an \<^verbatim>\<open>int\<close> passed for a \<^verbatim>\<open>uint8_t\<close> parameter) is a
  \<open>ucast\<close> or \<open>of_nat\<close> that truncates as the C conversion does.

  Modelled are \<^verbatim>\<open>mpu_num_regions\<close>, \<^verbatim>\<open>has_mpu\<close>, \<^verbatim>\<open>mpu_is_unified\<close>,
  \<^verbatim>\<open>mpu_get_type\<close>, \<^verbatim>\<open>mpu_update_region\<close>, \<^verbatim>\<open>mpu_config_region\<close>,
  \<^verbatim>\<open>mpu_enable\<close>, \<^verbatim>\<open>mpu_disable\<close>, \<^verbatim>\<open>mpu_lock_rollback\<close> and \<^verbatim>\<open>mpu_pre_init\<close>.
  The remaining entry points (\<^verbatim>\<open>mpu_protect_data_ram\<close>, \<^verbatim>\<open>mpu_protect_code_ram\<close>,
  \<^verbatim>\<open>mpu_lock_ro_flash\<close>, \<^verbatim>\<open>mpu_lock_rw_flash\<close>) call \<^verbatim>\<open>mpu_config_region\<close> on
  further constants of the board and are not called by the functions above.
\<close>

type_synonym u8 = "8 word"
type_synonym u16 = "16 word"
type_synonym u32 = "32 word"

subsection \<open>Return values\<close>

text \<open>
  The functions return \<^verbatim>\<open>int\<close>: \<^verbatim>\<open>EC_SUCCESS\<close>, \<^verbatim>\<open>-EC_ERROR_INVAL\<close>,
  \<^verbatim>\<open>EC_ERROR_HW_INTERNAL\<close> or \<^verbatim>\<open>EC_ERROR_UNIMPLEMENTED\<close>. The enumeration itself is
  declared in a header outside the sources at hand; the four values are distinct
  integers and \<^verbatim>\<open>EC_SUCCESS\<close> is the only zero among them, which is all the code
  (\<^verbatim>\<open>rv != EC_SUCCESS\<close>) relies on, so they are the constructors of a datatype.
  Every parameter error of \<^verbatim>\<open>mpu_update_region\<close> and \<^verbatim>\<open>mpu_config_region\<close> is
  the one value \<^verbatim>\<open>-EC_ERROR_INVAL\<close>.
\<close>

datatype ec_status =
    EC_SUCCESS
  | Neg_EC_ERROR_INVAL
  | EC_ERROR_HW_INTERNAL
  | EC_ERROR_UNIMPLEMENTED

subsection \<open>Hardware state and trace\<close>

text \<open>
  The arguments of one call of \<^verbatim>\<open>mpu_update_region\<close>: the encoding of one hardware
  region (slot index, base address, size exponent, attribute bits, enable flag,
  sub-region disable mask).
\<close>

record region_encoding =
  enc_region :: u8
  enc_addr :: u32
  enc_size_bit :: u8
  enc_attr :: u16
  enc_enable :: u8
  enc_srd :: u8

text \<open>
  The arguments of one call of \<^verbatim>\<open>mpu_config_region\<close>: a protection request for a
  byte range.
\<close>

record config_request =
  req_region :: u8
  req_addr :: u32
  req_size :: u32
  req_attr :: u16
  req_enable :: u8

text \<open>
  The trace lists, in program order, what a run does to the hardware: the barriers
  (\<^verbatim>\<open>isb; dsb;\<close>), every store to an MPU register with the value stored, and the call
  of \<^verbatim>\<open>cpu_enable_caches\<close>. Two more events record the history of the calls and
  change nothing in the hardware: \<open>Config_request\<close> is added when
  \<^verbatim>\<open>mpu_config_region\<close> is entered, \<open>Region_write\<close> when \<^verbatim>\<open>mpu_update_region\<close> has
  accepted its arguments and starts its write sequence.
\<close>

datatype event =
    Barrier
  | Store_NUMBER u32
  | Store_SIZE u16
  | Store_BASE u32
  | Store_SIZE32 u32
  | Store_CTRL u32
  | Enable_caches
  | Region_write region_encoding
  | Config_request config_request

text \<open>
  Modelled from the spec: the register declarations (\<^verbatim>\<open>registers.h\<close>) are not among
  the sources. The spec's register contract has a read-only type register, a
  current-region-index register whose value selects the slot that the base-address and
  the packed size/attribute registers address, and a global control register. The
  comment in \<^verbatim>\<open>mpu_update_region\<close> tells that \<^verbatim>\<open>MPU_SIZE\<close> and \<^verbatim>\<open>MPU_ATTR\<close> are the
  two half-words of one 32-bit word, \<^verbatim>\<open>MPU_SIZE\<close> the low one.
\<close>

record mpu_state =
  MPU_TYPE :: u32
  MPU_CTRL :: u32
  MPU_NUMBER :: u32
  MPU_BASE :: "u32 \<Rightarrow> u32"
  MPU_SIZE :: "u32 \<Rightarrow> u16"
  MPU_ATTR :: "u32 \<Rightarrow> u16"
  trace :: "event list"

definition emit :: "event \<Rightarrow> mpu_state \<Rightarrow> mpu_state" where
  "emit e s = s\<lparr>trace := trace s @ [e]\<rparr>"

definition barrier :: "mpu_state \<Rightarrow> mpu_state" where
  "barrier s = emit Barrier s"

definition store_NUMBER :: "u32 \<Rightarrow> mpu_state \<Rightarrow> mpu_state" where
  "store_NUMBER v s = emit (Store_NUMBER v) (s\<lparr>MPU_NUMBER := v\<rparr>)"

definition store_SIZE :: "u16 \<Rightarrow> mpu_state \<Rightarrow> mpu_state" where
  "store_SIZE v s = emit (Store_SIZE v) (s\<lparr>MPU_SIZE := (MPU_SIZE s)(MPU_NUMBER s := v)\<rparr>)"

definition store_BASE :: "u32 \<Rightarrow> mpu_state \<Rightarrow> mpu_state" where
  "store_BASE v s = emit (Store_BASE v) (s\<lparr>MPU_BASE := (MPU_BASE s)(MPU_NUMBER s := v)\<rparr>)"

definition store_SIZE32 :: "u32 \<Rightarrow> mpu_state \<Rightarrow> mpu_state" where
  "store_SIZE32 v s =
     emit (Store_SIZE32 v)
       (s\<lparr>MPU_SIZE := (MPU_SIZE s)(MPU_NUMBER s := ucast v),
          MPU_ATTR := (MPU_ATTR s)(MPU_NUMBER s := ucast (drop_bit 16 v))\<rparr>)"

definition store_CTRL :: "u32 \<Rightarrow> mpu_state \<Rightarrow> mpu_state" where
  "store_CTRL v s = emit (Store_CTRL v) (s\<lparr>MPU_CTRL := v\<rparr>)"

subsection \<open>Constants of the headers and of the board configuration\<close>

text \<open>
  The region indices, attribute bits, control bits, the layout of the type register and
  the board's memory map are macros and enumerators of headers that are not among the
  sources; the spec gives no value for them. They are parameters of the model: every
  function takes the record \<open>h\<close> of these constants.
\<close>

record platform =
  MPU_TYPE_REG_COUNT :: "u32 \<Rightarrow> u32"
  MPU_TYPE_UNIFIED_MASK :: u32
  MPU_CTRL_PRIVDEFEN :: u32
  MPU_CTRL_HFNMIENA :: u32
  MPU_CTRL_ENABLE :: u32
  MPU_ATTR_XN :: u16
  MPU_ATTR_NO_NO :: u16
  MPU_ATTR_RW_RW :: u16
  REGION_STORAGE2 :: u8
  REGION_DATA_RAM_TEXT :: u8
  REGION_CHIP_RESERVED :: u8
  REGION_UNCACHED_RAM :: u8
  REGION_ROLLBACK :: u8
  CORTEX_M_SRAM_BASE :: u32
  CONFIG_MAPPED_STORAGE_BASE :: u32
  CONFIG_ROLLBACK_OFF :: u32
  CONFIG_ROLLBACK_SIZE :: u32
  CONFIG_ROLLBACK_MPU_PROTECT :: bool
  CONFIG_ARMV7M_CACHE :: bool
  CONFIG_CHIP_UNCACHED_REGION :: "(u32 \<times> u32) option"

text \<open>
  Modelled from the spec: \<^verbatim>\<open>MPU_SIZE_BITS_MIN\<close> is declared in the absent
  \<^verbatim>\<open>mpu.h\<close>. The spec's minimum size exponent is 5 (32 bytes), and the comment in
  \<^verbatim>\<open>mpu_pre_init\<close> calls a region of \<^verbatim>\<open>MPU_SIZE_BITS_MIN\<close> bits the smallest possible
  size, 32 bytes.
\<close>

definition MPU_SIZE_BITS_MIN :: u8 where
  "MPU_SIZE_BITS_MIN = 5"

text \<open>
  Modelled from the spec: \<^verbatim>\<open>BIT\<close>, \<^verbatim>\<open>POWER_OF_TWO\<close> and \<^verbatim>\<open>is_aligned\<close> belong to
  utility headers that are not among the sources. \<^verbatim>\<open>BIT(n)\<close> is the 32-bit word with
  only bit \<open>n\<close> set (no bit at all from \<open>n = 32\<close> on, where the C shift is undefined and
  the processor's shift gives 0). \<^verbatim>\<open>POWER_OF_TWO(x)\<close> is the spec's "exact power of
  two", computed by the usual test on \<open>x\<close> and \<open>x - 1\<close>; \<^verbatim>\<open>is_aligned(addr, align)\<close>
  is the spec's "\<open>addr\<close> is a multiple of \<open>align\<close>", for a power of two \<open>align\<close>.
  The lemmas \<open>POWER_OF_TWO_iff\<close> and \<open>is_aligned_BIT_iff\<close> below state both in
  arithmetic.
\<close>

definition BIT :: "nat \<Rightarrow> u32" where
  "BIT n = push_bit n 1"

definition POWER_OF_TWO :: "u32 \<Rightarrow> bool" where
  "POWER_OF_TWO x \<longleftrightarrow> x \<noteq> 0 \<and> x AND (x - 1) = 0"

definition is_aligned :: "u32 \<Rightarrow> u32 \<Rightarrow> bool" where
  "is_aligned addr align \<longleftrightarrow> POWER_OF_TWO align \<and> addr AND (align - 1) = 0"

text \<open>
  \<^verbatim>\<open>__builtin_clz\<close>: the number of zero bits above the most significant set bit of a
  32-bit value (the code calls it for a non-zero argument only).
\<close>

fun clz_below :: "nat \<Rightarrow> u32 \<Rightarrow> nat" where
  "clz_below 0 w = 0"
| "clz_below (Suc n) w = (if bit w n then 0 else Suc (clz_below n w))"

definition builtin_clz :: "u32 \<Rightarrow> nat" where
  "builtin_clz w = clz_below 32 w"

subsection \<open>Capability queries\<close>

text \<open>
  \<^verbatim>\<open>mpu_num_regions\<close> returns the value of the macro \<^verbatim>\<open>MPU_TYPE_REG_COUNT\<close> as an
  \<^verbatim>\<open>int\<close>; the comparisons \<^verbatim>\<open>region >= mpu_num_regions()\<close> and
  \<^verbatim>\<open>rollback_mpu_region < num_mpu_regions\<close> promote the \<^verbatim>\<open>uint8_t\<close> to \<^verbatim>\<open>int\<close>.
\<close>

definition mpu_get_type :: "mpu_state \<Rightarrow> u32" where
  "mpu_get_type s = MPU_TYPE s"

definition mpu_num_regions :: "platform \<Rightarrow> mpu_state \<Rightarrow> int" where
  "mpu_num_regions h s = sint (MPU_TYPE_REG_COUNT h (mpu_get_type s))"

definition has_mpu :: "platform \<Rightarrow> mpu_state \<Rightarrow> bool" where
  "has_mpu h s \<longleftrightarrow> mpu_num_regions h s \<noteq> 0"

definition mpu_is_unified :: "platform \<Rightarrow> mpu_state \<Rightarrow> bool" where
  "mpu_is_unified h s \<longleftrightarrow> mpu_get_type s AND MPU_TYPE_UNIFIED_MASK h = 0"

subsection \<open>Programming one region\<close>

text \<open>
  \<^verbatim>\<open>mpu_update_region\<close>: three checks, then the write sequence. \<^verbatim>\<open>MPU_SIZE &= ~1\<close>
  is a read and a store of the 16-bit register; the enabling store is the single 32-bit
  store to the word that holds \<^verbatim>\<open>MPU_SIZE\<close> and \<^verbatim>\<open>MPU_ATTR\<close>. In its value,
  \<^verbatim>\<open>size_bit - 1\<close> is computed on a \<^verbatim>\<open>size_bit\<close> of at least 5. The history event
  \<open>Region_write\<close> is added after the checks, before the first barrier.
\<close>

definition mpu_update_region ::
  "platform \<Rightarrow> u8 \<Rightarrow> u32 \<Rightarrow> u8 \<Rightarrow> u16 \<Rightarrow> u8 \<Rightarrow> u8 \<Rightarrow> mpu_state \<Rightarrow> ec_status \<times> mpu_state" where
  "mpu_update_region h region addr size_bit attr enable srd s =
     (if \<not> is_aligned addr (BIT (unat size_bit)) then (Neg_EC_ERROR_INVAL, s)
      else if uint region \<ge> mpu_num_regions h s then (Neg_EC_ERROR_INVAL, s)
      else if size_bit < MPU_SIZE_BITS_MIN then (Neg_EC_ERROR_INVAL, s)
      else
        let s = emit (Region_write \<lparr>enc_region = region, enc_addr = addr,
                  enc_size_bit = size_bit, enc_attr = attr, enc_enable = enable,
                  enc_srd = srd\<rparr>) s;
            s = barrier s;
            s = store_NUMBER (ucast region) s;
            s = store_SIZE (MPU_SIZE s (MPU_NUMBER s) AND NOT 1) s;
            s = (if enable \<noteq> 0
                 then store_SIZE32
                        (push_bit 16 (ucast attr) OR push_bit 8 (ucast srd)
                           OR push_bit 1 (ucast size_bit - 1) OR 1)
                        (store_BASE addr s)
                 else s);
            s = barrier s
        in (EC_SUCCESS, s))"

subsection \<open>Configuring a byte range\<close>

text \<open>
  \<^verbatim>\<open>mpu_config_region\<close>; its parameter \<^verbatim>\<open>size\<close> is \<open>sz\<close> here. The local
  \<^verbatim>\<open>size_bit\<close> is an \<^verbatim>\<open>int\<close> between 0 and 31; it is a natural number here, and each
  difference \<^verbatim>\<open>size_bit - 5\<close> or \<^verbatim>\<open>size_bit - 2\<close> is taken only below the checks
  \<^verbatim>\<open>size_bit < 5\<close> and \<^verbatim>\<open>size_bit < 7\<close>, so it never truncates. The shifts
  \<^verbatim>\<open>0x3f << (size_bit - 5)\<close> and \<^verbatim>\<open>1 << (size_bit - 2)\<close> are taken in 32 bits.
  \<^verbatim>\<open>blocks\<close>, \<^verbatim>\<open>srd1\<close> and \<^verbatim>\<open>srd2\<close> are \<^verbatim>\<open>uint8_t\<close>: the values assigned are cut
  to 8 bits, and so are \<^verbatim>\<open>~srd1\<close>, \<^verbatim>\<open>~srd2\<close>, \<^verbatim>\<open>region + 1\<close>, \<^verbatim>\<open>size_bit + 1\<close> and
  \<^verbatim>\<open>size_bit - 2\<close> when passed on. The address that \<^verbatim>\<open>addr += ...\<close> leaves in
  \<^verbatim>\<open>addr\<close> is \<open>addr2\<close>. The first step adds the history event of the request.
\<close>

definition mpu_config_region ::
  "platform \<Rightarrow> u8 \<Rightarrow> u32 \<Rightarrow> u32 \<Rightarrow> u16 \<Rightarrow> u8 \<Rightarrow> mpu_state \<Rightarrow> ec_status \<times> mpu_state" where
  "mpu_config_region h region addr sz attr enable s0 =
     (let s = emit (Config_request \<lparr>req_region = region, req_addr = addr, req_size = sz,
                  req_attr = attr, req_enable = enable\<rparr>) s0
      in
      if sz = 0 then (EC_SUCCESS, s)
      else
        let size_bit = 31 - builtin_clz sz in
        if size_bit < 5 then (Neg_EC_ERROR_INVAL, s)
        else if POWER_OF_TWO sz
          then mpu_update_region h region addr (of_nat size_bit) attr enable 0 s
        else if size_bit < 7 then (Neg_EC_ERROR_INVAL, s)
        else if sz AND NOT (push_bit (size_bit - 5) 0x3f) \<noteq> 0 then (Neg_EC_ERROR_INVAL, s)
        else
          let blocks = (ucast (drop_bit (size_bit - 2) sz) :: u8);
              srd1 = (ucast (BIT (unat blocks) - 1) :: u8);
              srd2 = (ucast (push_bit (unat (drop_bit (size_bit - 5) sz AND 0x7)) (1::u32) - 1) :: u8)
          in
          if srd2 \<noteq> 0 \<and> (region = REGION_DATA_RAM_TEXT h \<or> size_bit < 10)
            then (Neg_EC_ERROR_INVAL, s)
          else
            (case mpu_update_region h region addr (of_nat (size_bit + 1)) attr enable (NOT srd1) s of
               (rv, s1) \<Rightarrow>
                 if rv \<noteq> EC_SUCCESS then (rv, s1)
                 else
                   let addr2 = addr + push_bit (size_bit - 2) 1 * ucast blocks in
                   if srd2 \<noteq> 0
                     then mpu_update_region h (region + 1) addr2 (of_nat (size_bit - 2)) attr
                            enable (NOT srd2) s1
                   else (rv, s1)))"

subsection \<open>Enabling and disabling the controller\<close>

definition mpu_enable :: "platform \<Rightarrow> mpu_state \<Rightarrow> mpu_state" where
  "mpu_enable h s =
     store_CTRL (MPU_CTRL s OR (MPU_CTRL_PRIVDEFEN h OR MPU_CTRL_HFNMIENA h OR MPU_CTRL_ENABLE h)) s"

definition mpu_disable :: "platform \<Rightarrow> mpu_state \<Rightarrow> mpu_state" where
  "mpu_disable h s =
     store_CTRL (MPU_CTRL s AND NOT (MPU_CTRL_PRIVDEFEN h OR MPU_CTRL_HFNMIENA h OR MPU_CTRL_ENABLE h)) s"

subsection \<open>Locking the rollback region\<close>

text \<open>
  \<^verbatim>\<open>mpu_lock_rollback(int lock)\<close>. The \<^verbatim>\<open>int\<close> argument is passed on for the
  \<^verbatim>\<open>uint8_t\<close> parameter \<^verbatim>\<open>enable\<close>, which keeps its low 8 bits. The start address is
  a sum and the half size a quotient of \<^verbatim>\<open>uint32_t\<close> values.
\<close>

definition mpu_lock_rollback :: "platform \<Rightarrow> 32 word \<Rightarrow> mpu_state \<Rightarrow> ec_status \<times> mpu_state" where
  "mpu_lock_rollback h lock s =
     (let num_mpu_regions = mpu_num_regions h s;
          rollback_region_start_address = CONFIG_MAPPED_STORAGE_BASE h + CONFIG_ROLLBACK_OFF h;
          rollback_region_total_size = CONFIG_ROLLBACK_SIZE h;
          mpu_attr = MPU_ATTR_XN h OR MPU_ATTR_NO_NO h;
          rollback_mpu_region = REGION_ROLLBACK h
      in
      if uint rollback_mpu_region < num_mpu_regions
        then mpu_config_region h rollback_mpu_region rollback_region_start_address
               rollback_region_total_size mpu_attr (ucast lock) s
      else
        (case mpu_config_region h (REGION_CHIP_RESERVED h) rollback_region_start_address
                (rollback_region_total_size div 2) mpu_attr (ucast lock) s of
           (rv, s1) \<Rightarrow>
             if rv \<noteq> EC_SUCCESS then (rv, s1)
             else mpu_config_region h (REGION_STORAGE2 h)
                    (rollback_region_start_address + rollback_region_total_size div 2)
                    (rollback_region_total_size div 2) mpu_attr (ucast lock) s1))"

subsection \<open>The boot sequence\<close>

text \<open>
  The loop of \<^verbatim>\<open>mpu_pre_init\<close> that disables every region: \<^verbatim>\<open>i\<close> runs from its
  start value up to \<^verbatim>\<open>num_mpu_regions\<close> and the first failing call ends the function.
\<close>

function disable_regions :: "platform \<Rightarrow> int \<Rightarrow> int \<Rightarrow> mpu_state \<Rightarrow> ec_status \<times> mpu_state" where
  "disable_regions h i num_mpu_regions s =
     (if i < num_mpu_regions
      then (let r = mpu_update_region h (of_int i) (CORTEX_M_SRAM_BASE h) MPU_SIZE_BITS_MIN 0 0 0 s
            in if fst r \<noteq> EC_SUCCESS then r
               else disable_regions h (i + 1) num_mpu_regions (snd r))
      else (EC_SUCCESS, s))"
  by pat_completeness auto
termination
  by (relation "measure (\<lambda>(h, i, n, s). nat (n - i))") auto

text \<open>
  \<^verbatim>\<open>mpu_pre_init\<close>. \<^verbatim>\<open>IS_ENABLED(CONFIG_ROLLBACK_MPU_PROTECT)\<close> and
  \<^verbatim>\<open>IS_ENABLED(CONFIG_ARMV7M_CACHE)\<close> are the two booleans of the configuration;
  \<^verbatim>\<open>CONFIG_CHIP_UNCACHED_REGION\<close>, when defined, names the start and the size of the
  uncached region. \<^verbatim>\<open>cpu_enable_caches\<close> is outside this module: its call is the
  event \<open>Enable_caches\<close>.
\<close>

definition mpu_pre_init :: "platform \<Rightarrow> mpu_state \<Rightarrow> ec_status \<times> mpu_state" where
  "mpu_pre_init h s =
     (if \<not> has_mpu h s then (EC_ERROR_HW_INTERNAL, s)
      else
        let num_mpu_regions = mpu_num_regions h s in
        if \<not> mpu_is_unified h s \<or> (num_mpu_regions \<noteq> 8 \<and> num_mpu_regions \<noteq> 16)
          then (EC_ERROR_UNIMPLEMENTED, s)
        else
          (case disable_regions h 0 num_mpu_regions (mpu_disable h s) of
             (rv, s1) \<Rightarrow>
               if rv \<noteq> EC_SUCCESS then (rv, s1)
               else
                 (case (if CONFIG_ROLLBACK_MPU_PROTECT h then mpu_lock_rollback h 1 s1
                        else (EC_SUCCESS, s1)) of
                    (rv, s2) \<Rightarrow>
                      if rv \<noteq> EC_SUCCESS then (rv, s2)
                      else
                        (case (if CONFIG_ARMV7M_CACHE h
                               then (case CONFIG_CHIP_UNCACHED_REGION h of
                                       None \<Rightarrow> (EC_SUCCESS, s2)
                                     | Some (region_start, region_size) \<Rightarrow>
                                         mpu_config_region h (REGION_UNCACHED_RAM h) region_start
                                           region_size (MPU_ATTR_XN h OR MPU_ATTR_RW_RW h) 1 s2)
                               else (EC_SUCCESS, s2)) of
                           (rv, s3) \<Rightarrow>
                             if rv \<noteq> EC_SUCCESS then (rv, s3)
                             else
                               let s4 = mpu_enable h s3;
                                   s5 = (if CONFIG_ARMV7M_CACHE h then emit Enable_caches s4 else s4)
                               in (EC_SUCCESS, s5)))))"

subsection \<open>Reading the trace and the encodings\<close>

text \<open>The events that a run from \<open>s\<close> to \<open>s'\<close> has added to the trace.\<close>

definition new_events :: "mpu_state \<Rightarrow> mpu_state \<Rightarrow> event list" where
  "new_events s s' = drop (length (trace s)) (trace s')"

fun encodings_of :: "event list \<Rightarrow> region_encoding list" where
  "encodings_of [] = []"
| "encodings_of (Region_write e # evs) = e # encodings_of evs"
| "encodings_of (_ # evs) = encodings_of evs"

fun requests_of :: "event list \<Rightarrow> config_request list" where
  "requests_of [] = []"
| "requests_of (Config_request r # evs) = r # requests_of evs"
| "requests_of (_ # evs) = requests_of evs"

text \<open>
  The bytes an encoding protects, as the header comment of \<^verbatim>\<open>mpu_update_region\<close>
  describes its parameters: the region is enabled when \<^verbatim>\<open>enable\<close> is non-zero, it
  starts at \<^verbatim>\<open>addr\<close> and is \<open>2 ^ size_bit\<close> bytes long, it is partitioned into
  eighths, and bit \<open>i\<close> of \<^verbatim>\<open>srd\<close> is 0 when the \<open>i\<close>-th eighth is enabled. Addresses
  are natural numbers, so that a region may end at \<open>2 ^ 32\<close>.
\<close>

definition enc_covers :: "region_encoding \<Rightarrow> nat \<Rightarrow> bool" where
  "enc_covers e a \<longleftrightarrow>
     enc_enable e \<noteq> 0 \<and>
     unat (enc_addr e) \<le> a \<and> a < unat (enc_addr e) + 2 ^ unat (enc_size_bit e) \<and>
     \<not> bit (enc_srd e) ((a - unat (enc_addr e)) div 2 ^ (unat (enc_size_bit e) - 3))"

text \<open>
  The encoding that the registers of slot \<open>r\<close> hold: the fields of \<^verbatim>\<open>MPU_SIZE\<close> read
  back the way the 32-bit store of \<^verbatim>\<open>mpu_update_region\<close> packs them (bit 0 enables the
  region, bits 1 to 5 hold \<^verbatim>\<open>size_bit - 1\<close>, bits 8 to 15 hold \<^verbatim>\<open>srd\<close>).
\<close>

definition slot_encoding :: "mpu_state \<Rightarrow> u8 \<Rightarrow> region_encoding" where
  "slot_encoding s r =
     \<lparr>enc_region = r, enc_addr = MPU_BASE s (ucast r),
      enc_size_bit = ucast (drop_bit 1 (MPU_SIZE s (ucast r)) AND 0x1F) + 1,
      enc_attr = MPU_ATTR s (ucast r),
      enc_enable = (if bit (MPU_SIZE s (ucast r)) 0 then 1 else 0),
      enc_srd = ucast (drop_bit 8 (MPU_SIZE s (ucast r)))\<rparr>"

subsection \<open>A sample configuration\<close>

text \<open>
  One concrete choice of the constants, on which the theorems below are exercised: an
  ARMv7-M type register (region count in bits 8 to 15), the region indices in the order
  data RAM, code RAM, storage, exempt text, chip reserved, uncached RAM, rollback, and a
  rollback range of 256 KiB that starts 128 KiB into the mapped flash.
\<close>

definition ex_platform :: platform where
  "ex_platform = \<lparr>
     MPU_TYPE_REG_COUNT = (\<lambda>t. drop_bit 8 t AND 0xFF),
     MPU_TYPE_UNIFIED_MASK = 0x00FF0001,
     MPU_CTRL_PRIVDEFEN = 4, MPU_CTRL_HFNMIENA = 2, MPU_CTRL_ENABLE = 1,
     MPU_ATTR_XN = 0x1000, MPU_ATTR_NO_NO = 0, MPU_ATTR_RW_RW = 0x0300,
     REGION_STORAGE2 = 5, REGION_DATA_RAM_TEXT = 6, REGION_CHIP_RESERVED = 7,
     REGION_UNCACHED_RAM = 8, REGION_ROLLBACK = 10,
     CORTEX_M_SRAM_BASE = 0x20000000,
     CONFIG_MAPPED_STORAGE_BASE = 0x08000000, CONFIG_ROLLBACK_OFF = 0x20000,
     CONFIG_ROLLBACK_SIZE = 0x40000,
     CONFIG_ROLLBACK_MPU_PROTECT = True, CONFIG_ARMV7M_CACHE = False,
     CONFIG_CHIP_UNCACHED_REGION = None\<rparr>"

text \<open>
  The same configuration with the rollback range 64 KiB into the mapped flash: its start
  is no multiple of 128 KiB, half the size of the range.
\<close>

definition ex_platform_64k :: platform where
  "ex_platform_64k = ex_platform\<lparr>CONFIG_ROLLBACK_OFF := 0x10000\<rparr>"

text \<open>The hardware after reset, with the value \<open>t\<close> in its type register.\<close>

definition ex_state :: "u32 \<Rightarrow> mpu_state" where
  "ex_state t = \<lparr>MPU_TYPE = t, MPU_CTRL = 0, MPU_NUMBER = 0, MPU_BASE = (\<lambda>_. 0),
     MPU_SIZE = (\<lambda>_. 0), MPU_ATTR = (\<lambda>_. 0), trace = []\<rparr>"

section \<open>Arithmetic of the helpers\<close>

text \<open>
  The bit tests of the code, read as arithmetic on the unsigned values: the position of
  the most significant set bit, the power-of-two test and the alignment test.
\<close>

lemma bit_of_range: "2 ^ k \<le> unat (w::u32) \<Longrightarrow> unat w < 2 ^ Suc k \<Longrightarrow> bit w k"
proof -
  assume a: "2 ^ k \<le> unat w" "unat w < 2 ^ Suc k"
  have "unat w div 2 ^ k = 1"
    using a by (simp add: div_nat_eqI)
  then have "odd (unat w div 2 ^ k)" by simp
  then have "bit (unat w) k" by (simp add: bit_iff_odd)
  then show ?thesis by (simp add: bit_unsigned_iff)
qed

lemma clz_below_bounds:
  "w \<noteq> 0 \<Longrightarrow> unat w < 2 ^ n \<Longrightarrow>
     clz_below n w < n \<and> 2 ^ (n - 1 - clz_below n w) \<le> unat w \<and> unat w < 2 ^ (n - clz_below n w)"
proof (induction n)
  case 0
  then show ?case by (simp add: unsigned_eq_0_iff)
next
  case (Suc n)
  show ?case
  proof (cases "bit w n")
    case True
    then have "bit (unat w) n" by (simp add: bit_unsigned_iff)
    then have "2 ^ n \<le> unat w"
      by (simp add: bit_iff_odd) (metis div_less even_zero linorder_not_less)
    with True Suc.prems show ?thesis by simp
  next
    case False
    have "unat w < 2 ^ n"
    proof (rule ccontr)
      assume "\<not> unat w < 2 ^ n"
      then have "2 ^ n \<le> unat w" by simp
      then have "bit w n" using Suc.prems(2) by (rule bit_of_range)
      with False show False by simp
    qed
    with Suc.IH Suc.prems(1) have ih: "clz_below n w < n" "2 ^ (n - 1 - clz_below n w) \<le> unat w"
        "unat w < 2 ^ (n - clz_below n w)" by simp_all
    from False ih show ?thesis by simp
  qed
qed

lemma size_bit_bounds:
  assumes "sz \<noteq> 0"
  shows "31 - builtin_clz sz \<le> 31" "2 ^ (31 - builtin_clz sz) \<le> unat sz" "unat sz < 2 ^ Suc (31 - builtin_clz sz)"
proof -
  have "unat sz < 2 ^ 32" using unsigned_less [of sz] by simp
  from clz_below_bounds [OF assms this]
  have c: "clz_below 32 sz < 32" "2 ^ (32 - 1 - clz_below 32 sz) \<le> unat sz" "unat sz < 2 ^ (32 - clz_below 32 sz)"
    by simp_all
  show "31 - builtin_clz sz \<le> 31" by simp
  show "2 ^ (31 - builtin_clz sz) \<le> unat sz" using c(2) by (simp add: builtin_clz_def)
  have "Suc (31 - clz_below 32 sz) = 32 - clz_below 32 sz" using c(1) by simp
  then show "unat sz < 2 ^ Suc (31 - builtin_clz sz)" using c(3) by (simp add: builtin_clz_def)
qed

lemma pow2_range_unique:
  assumes "2 ^ k \<le> (n::nat)" "n < 2 ^ Suc k" "2 ^ j \<le> n" "n < 2 ^ Suc j"
  shows "j = k"
proof -
  have "(2::nat) ^ k < 2 ^ Suc j" using assms by linarith
  then have a: "k < Suc j" by (simp only: power_strict_increasing_iff rel_simps)
  have "(2::nat) ^ j < 2 ^ Suc k" using assms by linarith
  then have b: "j < Suc k" by (simp only: power_strict_increasing_iff rel_simps)
  from a b show ?thesis by simp
qed

lemma unat_BIT: "n < 32 \<Longrightarrow> unat (BIT n) = 2 ^ n"
proof -
  assume "n < 32"
  then have lt: "(2::nat) ^ n < 2 ^ LENGTH(32)" by (simp only: len_bit0 len_num1 power_strict_increasing_iff rel_simps)
  have "unat (BIT n) = unat (word_of_nat (2 ^ n) :: u32)" by (simp add: BIT_def push_bit_eq_mult)
  also have "\<dots> = 2 ^ n" using lt by (rule of_nat_inverse [OF refl])
  finally show ?thesis .
qed

lemma BIT_ge_32: "32 \<le> n \<Longrightarrow> BIT n = 0"
  by (simp add: BIT_def push_bit_eq_mult)

lemma BIT_minus_1: "BIT n - 1 = mask n"
  by (simp add: BIT_def mask_eq_exp_minus_1 push_bit_eq_mult)

lemma POWER_OF_TWO_BIT: "n < 32 \<Longrightarrow> POWER_OF_TWO (BIT n)"
proof -
  assume n: "n < 32"
  have "BIT n \<noteq> 0" using unat_BIT [OF n] by (metis power_not_zero unsigned_0 zero_neq_numeral)
  moreover have "BIT n AND mask n = 0"
    by (rule bit_word_eqI) (auto simp add: BIT_def bit_simps)
  ultimately show ?thesis by (simp add: POWER_OF_TWO_def BIT_minus_1)
qed

lemma POWER_OF_TWO_imp:
  assumes "POWER_OF_TWO x"
  shows "unat x = 2 ^ (31 - builtin_clz x)"
proof (rule ccontr)
  let ?k = "31 - builtin_clz x"
  assume ne: "unat x \<noteq> 2 ^ ?k"
  from assms have x0: "x \<noteq> 0" and z: "x AND (x - 1) = 0" by (simp_all add: POWER_OF_TWO_def)
  note b = size_bit_bounds [OF x0]
  have "1 \<le> x" using x0 by (simp add: word_le_nat_alt Suc_le_eq unat_gt_0)
  then have u: "unat (x - 1) = unat x - 1" by (simp add: unat_sub)
  have "bit x ?k" using b(2,3) by (rule bit_of_range)
  moreover have "bit (x - 1) ?k"
    using b ne u by (intro bit_of_range) simp_all
  ultimately have "bit (x AND (x - 1)) ?k" by (simp add: bit_and_iff)
  with z show False by simp
qed

lemma POWER_OF_TWO_iff: "POWER_OF_TWO x \<longleftrightarrow> (\<exists>j<32. unat x = 2 ^ j)"
proof
  assume "POWER_OF_TWO x"
  then have "unat x = 2 ^ (31 - builtin_clz x)" by (rule POWER_OF_TWO_imp)
  then show "\<exists>j<32. unat x = 2 ^ j" by (intro exI [of _ "31 - builtin_clz x"]) simp
next
  assume "\<exists>j<32. unat x = 2 ^ j"
  then obtain j where j: "j < 32" "unat x = 2 ^ j" by blast
  then have "unat x = unat (BIT j)" by (simp add: unat_BIT)
  then have "x = BIT j" by (simp add: word_eq_iff_unsigned [where ?'a = nat])
  with j(1) show "POWER_OF_TWO x" by (simp add: POWER_OF_TWO_BIT)
qed

lemma is_aligned_BIT_iff: "is_aligned addr (BIT n) \<longleftrightarrow> n < 32 \<and> 2 ^ n dvd unat addr"
proof (cases "n < 32")
  case True
  have "addr AND mask n = 0 \<longleftrightarrow> 2 ^ n dvd unat addr"
  proof -
    have "addr AND mask n = take_bit n addr" by (simp add: take_bit_eq_mask)
    moreover have "unat (take_bit n addr) = take_bit n (unat addr)"
      by (rule unsigned_take_bit_eq)
    moreover have "take_bit n (unat addr) = unat addr mod 2 ^ n"
      by (rule take_bit_eq_mod)
    ultimately show ?thesis
      by (metis unsigned_eq_0_iff mod_eq_0_iff_dvd)
  qed
  with True show ?thesis by (simp add: is_aligned_def POWER_OF_TWO_BIT BIT_minus_1)
next
  case False
  then show ?thesis by (simp add: is_aligned_def BIT_ge_32 POWER_OF_TWO_def)
qed

lemma size_bit_eq:
  assumes "2 ^ k \<le> unat sz" "unat sz < 2 ^ Suc k"
  shows "31 - builtin_clz sz = k" "sz \<noteq> 0" "k \<le> 31"
proof -
  show nz: "sz \<noteq> 0" using assms(1) by auto
  from size_bit_bounds [OF nz] assms
  show e: "31 - builtin_clz sz = k" by (metis pow2_range_unique)
  from e show "k \<le> 31" by simp
qed

text \<open>
  The size exponents that are passed on as \<^verbatim>\<open>uint8_t\<close> keep their value, and
  \<^verbatim>\<open>POWER_OF_TWO\<close> holds of a length exactly when the length is 2 to the power of its
  \<^verbatim>\<open>size_bit\<close>.
\<close>

lemma unat_of_nat_u8: "k < 256 \<Longrightarrow> unat (of_nat k :: u8) = k"
  by (simp add: unat_of_nat)

lemma POWER_OF_TWO_size_bit:
  assumes "2 ^ k \<le> unat sz" "unat sz < 2 ^ Suc k"
  shows "POWER_OF_TWO sz \<longleftrightarrow> unat sz = 2 ^ k"
proof
  assume "POWER_OF_TWO sz"
  then show "unat sz = 2 ^ k" using POWER_OF_TWO_imp size_bit_eq(1) [OF assms] by metis
next
  assume "unat sz = 2 ^ k"
  moreover have "k < 32" using size_bit_eq(3) [OF assms] by simp
  ultimately show "POWER_OF_TWO sz" by (auto simp add: POWER_OF_TWO_iff)
qed

text \<open>
  The check \<^verbatim>\<open>size & ~(0x3f << (size_bit - 5))\<close>: when it finds no bit, the size is a
  multiple of \<open>2 ^ (size_bit - 5)\<close>.
\<close>

lemma mask_check_dvd:
  assumes "sz AND NOT (push_bit n 0x3f) = (0::u32)"
  shows "2 ^ n dvd unat sz"
proof -
  have "take_bit n sz = 0"
  proof (rule bit_word_eqI)
    fix i assume "i < LENGTH(32)"
    have "\<not> (i < n \<and> bit sz i)"
    proof
      assume a: "i < n \<and> bit sz i"
      then have "bit (sz AND NOT (push_bit n 0x3f)) i"
        using \<open>i < LENGTH(32)\<close> by (simp add: bit_and_iff bit_not_iff bit_push_bit_iff)
      with assms show False by simp
    qed
    then show "bit (take_bit n sz) i \<longleftrightarrow> bit (0::u32) i"
      by (simp add: bit_take_bit_iff)
  qed
  moreover have "unat (take_bit n sz) = take_bit n (unat sz)" by (rule unsigned_take_bit_eq)
  moreover have "take_bit n (unat sz) = unat sz mod 2 ^ n" by (rule take_bit_eq_mod)
  ultimately have "unat sz mod 2 ^ n = 0" by simp
  then show ?thesis by (simp add: mod_eq_0_iff_dvd)
qed

text \<open>
  The number of occupied eighths of the first region and of the second one: with
  \<open>m = size div 2 ^ (size_bit - 5)\<close>, the six leading bits of the length, \<^verbatim>\<open>blocks\<close> is
  \<open>m div 8\<close> and the shift count of \<^verbatim>\<open>srd2\<close> is \<open>m mod 8\<close>.
\<close>

lemma unat_and_7: "unat ((w::u32) AND 0x7) = unat w mod 8"
proof -
  have "w AND 0x7 = take_bit 3 w" by (simp add: take_bit_eq_mask mask_numeral)
  moreover have "unat (take_bit 3 w) = take_bit 3 (unat w)" by (rule unsigned_take_bit_eq)
  moreover have "take_bit 3 (unat w) = unat w mod 2 ^ 3" by (rule take_bit_eq_mod)
  ultimately show ?thesis by simp
qed

lemma unat_ucast_u8_small: "unat (w::u32) < 256 \<Longrightarrow> unat (ucast w :: u8) = unat w"
  by (simp add: unsigned_ucast_eq take_bit_nat_eq_self)

lemma rounded_arith:
  assumes "2 ^ k \<le> unat (sz::u32)" "unat sz < 2 ^ Suc k" "7 \<le> k" "2 ^ (k - 5) dvd unat sz"
  defines "m \<equiv> unat sz div 2 ^ (k - 5)"
  shows "unat sz = m * 2 ^ (k - 5)" "32 \<le> m" "m < 64"
    "unat (ucast (drop_bit (k - 2) sz) :: u8) = m div 8"
    "unat (drop_bit (k - 5) sz AND 0x7) = m mod 8"
proof -
  let ?P = "(2::nat) ^ (k - 5)"
  have k5: "k = 5 + (k - 5)" and k2: "k - 2 = (k - 5) + 3" using assms(3) by simp_all
  have pk: "(2::nat) ^ k = 32 * ?P"
  proof -
    have "(2::nat) ^ k = 2 ^ 5 * ?P" using k5 by (metis power_add)
    then show ?thesis by simp
  qed
  have pk2: "(2::nat) ^ (k - 2) = ?P * 8"
  proof -
    have "(2::nat) ^ (k - 2) = ?P * 2 ^ 3" using k2 by (metis power_add)
    then show ?thesis by simp
  qed
  show eq: "unat sz = m * ?P" using assms(4) by (simp add: m_def)
  have "32 * ?P \<le> m * ?P" using assms(1) pk eq by simp
  then show m32: "32 \<le> m" by simp
  have "m * ?P < 64 * ?P" using assms(2) pk eq by simp
  then show m64: "m < 64" by simp
  have "unat (drop_bit (k - 2) sz) = drop_bit (k - 2) (unat sz)" by (rule unat_drop_bit_eq)
  also have "\<dots> = unat sz div 2 ^ (k - 2)" by (rule drop_bit_eq_div)
  also have "\<dots> = unat sz div (?P * 8)" by (simp only: pk2)
  also have "\<dots> = m div 8" by (simp only: div_mult2_eq m_def)
  finally have d: "unat (drop_bit (k - 2) sz) = m div 8" .
  with m64 have "unat (drop_bit (k - 2) sz) < 256" by simp
  then have "unat (ucast (drop_bit (k - 2) sz) :: u8) = unat (drop_bit (k - 2) sz)"
    by (rule unat_ucast_u8_small)
  with d show "unat (ucast (drop_bit (k - 2) sz) :: u8) = m div 8" by simp
  have "unat (drop_bit (k - 5) sz) = drop_bit (k - 5) (unat sz)" by (rule unat_drop_bit_eq)
  also have "\<dots> = m" unfolding m_def by (rule drop_bit_eq_div)
  finally have "unat (drop_bit (k - 5) sz) = m" .
  then show "unat (drop_bit (k - 5) sz AND 0x7) = m mod 8" by (simp add: unat_and_7)
qed

text \<open>
  A region that starts at a multiple of its size ends at \<open>2 ^ 32\<close> at the latest, so the
  base address of the second region does not wrap around.
\<close>

lemma aligned_room:
  assumes "2 ^ n dvd unat (addr::u32)" "n \<le> 32"
  shows "unat addr + 2 ^ n \<le> 2 ^ 32"
proof -
  from assms(1) obtain q where q: "unat addr = 2 ^ n * q" by (auto elim: dvdE)
  have "32 = n + (32 - n)" using assms(2) by simp
  then have p: "(2::nat) ^ 32 = 2 ^ n * 2 ^ (32 - n)" by (metis power_add)
  have "unat addr < 2 ^ 32" using unsigned_less [of addr] by simp
  with q p have "2 ^ n * q < 2 ^ n * 2 ^ (32 - n)" by simp
  then have "q < 2 ^ (32 - n)" by simp
  then have "Suc q \<le> 2 ^ (32 - n)" by simp
  then have "2 ^ n * Suc q \<le> 2 ^ n * 2 ^ (32 - n)" by (rule mult_le_mono2)
  with q p show ?thesis by simp
qed

lemma split_eighths: "(m::nat) * P = m div 8 * (8 * P) + m mod 8 * P"
proof -
  have "m * P = (m div 8 * 8 + m mod 8) * P" by simp
  also have "\<dots> = m div 8 * 8 * P + m mod 8 * P" by (rule add_mult_distrib)
  finally show ?thesis by (simp only: mult.assoc)
qed

lemma interval_join:
  fixes a :: nat
  shows "(A \<le> a \<and> a < A + x) \<or> (A + x \<le> a \<and> a < A + x + y) \<longleftrightarrow> A \<le> a \<and> a < A + (x + y)"
  by auto

section \<open>The bytes an encoding protects\<close>

text \<open>
  The masks the code passes are \<open>~srd\<close> for \<open>srd = 2 ^ b - 1\<close>: the first \<open>b\<close>
  eighths stay enabled.
\<close>

lemma bit_srd:
  "bit (NOT (ucast (mask b :: u32) :: u8)) i \<longleftrightarrow> i < 8 \<and> b \<le> i"
  by (auto simp add: bit_not_iff bit_ucast_iff bit_mask_iff)

lemma srd_eq_0_iff: "(ucast (mask b :: u32) :: u8) = 0 \<longleftrightarrow> b = 0"
proof
  assume z: "(ucast (mask b :: u32) :: u8) = 0"
  show "b = 0"
  proof (rule ccontr)
    assume "b \<noteq> 0"
    then have "bit (ucast (mask b :: u32) :: u8) 0" by (simp add: bit_ucast_iff bit_mask_iff)
    with z show False by simp
  qed
qed simp

lemma enc_covers_masked:
  assumes "en \<noteq> 0" "3 \<le> unat E" "b \<le> 8"
  shows "enc_covers \<lparr>enc_region = r, enc_addr = a0, enc_size_bit = E, enc_attr = at,
            enc_enable = en, enc_srd = NOT (ucast (mask b :: u32))\<rparr> a \<longleftrightarrow>
         unat a0 \<le> a \<and> a < unat a0 + b * 2 ^ (unat E - 3)"
proof -
  let ?P = "(2::nat) ^ (unat E - 3)"
  have E: "(2::nat) ^ unat E = 8 * ?P"
  proof -
    have "unat E = 3 + (unat E - 3)" using assms(2) by simp
    then have "(2::nat) ^ unat E = 2 ^ 3 * 2 ^ (unat E - 3)" by (metis power_add)
    then show ?thesis by simp
  qed
  have P: "0 < ?P" by simp
  show ?thesis
  proof (cases "unat a0 \<le> a")
    case False
    then show ?thesis by (simp add: enc_covers_def)
  next
    case True
    let ?d = "(a - unat a0) div ?P"
    have d8: "?d < 8 \<longleftrightarrow> a < unat a0 + 8 * ?P"
      using True P by (simp add: div_less_iff_less_mult) linarith
    have db: "?d < b \<longleftrightarrow> a < unat a0 + b * ?P"
      using True P by (simp add: div_less_iff_less_mult) linarith
    have "enc_covers \<lparr>enc_region = r, enc_addr = a0, enc_size_bit = E, enc_attr = at,
            enc_enable = en, enc_srd = NOT (ucast (mask b :: u32))\<rparr> a \<longleftrightarrow>
          ?d < 8 \<and> \<not> (?d < 8 \<and> b \<le> ?d)"
      using True assms(1) by (simp add: enc_covers_def bit_srd E d8)
    also have "\<dots> \<longleftrightarrow> ?d < b" using assms(3) by auto
    finally show ?thesis using True db by simp
  qed
qed

lemma enc_covers_full:
  assumes "en \<noteq> 0"
  shows "enc_covers \<lparr>enc_region = r, enc_addr = a0, enc_size_bit = E, enc_attr = at,
            enc_enable = en, enc_srd = 0\<rparr> a \<longleftrightarrow>
         unat a0 \<le> a \<and> a < unat a0 + 2 ^ unat E"
  using assms by (simp add: enc_covers_def)

section \<open>Reading the trace\<close>

text \<open>
  The encodings and the requests of a trace that is put together from parts.
\<close>

lemma encodings_of_append: "encodings_of (xs @ ys) = encodings_of xs @ encodings_of ys"
  by (induction xs rule: encodings_of.induct) simp_all

lemma requests_of_append: "requests_of (xs @ ys) = requests_of xs @ requests_of ys"
  by (induction xs rule: requests_of.induct) simp_all

lemma new_events_append: "trace s' = trace s @ evs \<Longrightarrow> new_events s s' = evs"
  by (simp add: new_events_def)

lemma mpu_num_regions_emit: "mpu_num_regions h (emit e s) = mpu_num_regions h s"
  by (simp add: mpu_num_regions_def mpu_get_type_def emit_def)

section \<open>Programming one region: \<^verbatim>\<open>mpu_update_region\<close>\<close>

text \<open>
  The three checks in arithmetic: a call is refused, and gives back the state it was
  given, when \<open>2 ^ size_bit\<close> is no divisor of the base address (or \<^verbatim>\<open>size_bit\<close> is 32
  or more), when the slot index is at or beyond the region count, or when \<^verbatim>\<open>size_bit\<close>
  is below 5; it is accepted otherwise.
\<close>

lemma mpu_update_region_error:
  assumes "\<not> (unat size_bit < 32 \<and> 2 ^ unat size_bit dvd unat addr) \<or>
           mpu_num_regions h s \<le> uint region \<or> unat size_bit < 5"
  shows "mpu_update_region h region addr size_bit attr enable srd s = (Neg_EC_ERROR_INVAL, s)"
proof -
  have "size_bit < 5 \<longleftrightarrow> unat size_bit < 5" by (simp add: word_less_nat_alt)
  with assms show ?thesis
    by (auto simp add: mpu_update_region_def is_aligned_BIT_iff MPU_SIZE_BITS_MIN_def)
qed

lemma mpu_update_region_ok:
  assumes "unat size_bit < 32" "2 ^ unat size_bit dvd unat addr"
      "uint region < mpu_num_regions h s" "5 \<le> unat size_bit"
  shows "fst (mpu_update_region h region addr size_bit attr enable srd s) = EC_SUCCESS"
proof -
  have "\<not> size_bit < 5" using assms(4) by (simp add: word_less_nat_alt)
  with assms show ?thesis
    by (simp add: mpu_update_region_def is_aligned_BIT_iff MPU_SIZE_BITS_MIN_def Let_def)
qed

lemma mpu_update_region_accepts:
  assumes "fst (mpu_update_region h region addr size_bit attr enable srd s) = EC_SUCCESS"
  shows "unat size_bit < 32" "2 ^ unat size_bit dvd unat addr" "uint region < mpu_num_regions h s"
    "5 \<le> unat size_bit"
proof -
  have "\<not> (\<not> (unat size_bit < 32 \<and> 2 ^ unat size_bit dvd unat addr) \<or>
           mpu_num_regions h s \<le> uint region \<or> unat size_bit < 5)"
  proof
    assume "\<not> (unat size_bit < 32 \<and> 2 ^ unat size_bit dvd unat addr) \<or>
           mpu_num_regions h s \<le> uint region \<or> unat size_bit < 5"
    then have "mpu_update_region h region addr size_bit attr enable srd s = (Neg_EC_ERROR_INVAL, s)"
      by (rule mpu_update_region_error)
    with assms show False by simp
  qed
  then show "unat size_bit < 32" "2 ^ unat size_bit dvd unat addr" "uint region < mpu_num_regions h s"
    "5 \<le> unat size_bit" by auto
qed

text \<open>
  An accepted call adds one encoding to the trace, a refused call none; neither adds a
  request. The events of an accepted call are the write sequence: barrier, slot
  selection, the store that clears the enable bit, the two stores of an enabling call,
  barrier.
\<close>

lemma mpu_update_region_write_sequence:
  assumes "fst (mpu_update_region h region addr size_bit attr enable srd s) = EC_SUCCESS"
  shows "trace (snd (mpu_update_region h region addr size_bit attr enable srd s)) =
     trace s @
       [Region_write \<lparr>enc_region = region, enc_addr = addr, enc_size_bit = size_bit,
          enc_attr = attr, enc_enable = enable, enc_srd = srd\<rparr>,
        Barrier, Store_NUMBER (ucast region), Store_SIZE (MPU_SIZE s (ucast region) AND NOT 1)] @
       (if enable \<noteq> 0
        then [Store_BASE addr,
              Store_SIZE32 (push_bit 16 (ucast attr) OR push_bit 8 (ucast srd)
                 OR push_bit 1 (ucast size_bit - 1) OR 1)]
        else []) @
       [Barrier]"
  using assms
  by (simp add: mpu_update_region_def Let_def emit_def barrier_def store_NUMBER_def
      store_SIZE_def store_BASE_def store_SIZE32_def split: if_splits)

lemma mpu_update_region_effect:
  "\<exists>evs. trace (snd (mpu_update_region h region addr size_bit attr enable srd s)) = trace s @ evs \<and>
     requests_of evs = [] \<and>
     encodings_of evs =
       (if fst (mpu_update_region h region addr size_bit attr enable srd s) = EC_SUCCESS
        then [\<lparr>enc_region = region, enc_addr = addr, enc_size_bit = size_bit, enc_attr = attr,
                enc_enable = enable, enc_srd = srd\<rparr>] else [])"
  by (simp add: mpu_update_region_def Let_def emit_def barrier_def store_NUMBER_def store_SIZE_def
      store_BASE_def store_SIZE32_def)

lemma mpu_update_region_encodings:
  assumes "fst (mpu_update_region h region addr size_bit attr enable srd s) = EC_SUCCESS"
      and "trace s = trace s0 @ evs0"
  shows "\<exists>evs. trace (snd (mpu_update_region h region addr size_bit attr enable srd s)) = trace s0 @ evs0 @ evs \<and>
     encodings_of evs = [\<lparr>enc_region = region, enc_addr = addr, enc_size_bit = size_bit, enc_attr = attr,
                enc_enable = enable, enc_srd = srd\<rparr>]"
  using mpu_update_region_effect [of h region addr size_bit attr enable srd s] assms by auto

subsection \<open>The registers after the write sequence\<close>

text \<open>
  The 32-bit word that the enabling store writes, bit by bit (\<open>w\<close> stands for
  \<^verbatim>\<open>size_bit - 1\<close>, which has five bits), and the fields read back from it.
\<close>

lemma small_bits: "unat (w::u32) < 2 ^ n \<Longrightarrow> bit w j \<Longrightarrow> j < n"
proof (rule ccontr)
  assume a: "unat w < 2 ^ n" "bit w j" "\<not> j < n"
  then have "bit (unat w) j" by (simp add: bit_unsigned_iff)
  then have "2 ^ j \<le> unat w"
    by (simp add: bit_iff_odd) (metis div_less even_zero linorder_not_less)
  moreover have "(2::nat) ^ n \<le> 2 ^ j" using a(3) by (intro power_increasing) simp_all
  ultimately show False using a(1) by simp
qed

lemma size_field:
  assumes "5 \<le> unat (size_bit::u8)" "unat size_bit < 32"
  shows "unat (ucast size_bit - 1 :: u32) = unat size_bit - 1"
proof -
  have "unat size_bit < 2 ^ 32" using assms(2) by simp
  then have "take_bit 32 (unat size_bit) = unat size_bit" by (rule take_bit_nat_eq_self)
  then have u: "unat (ucast size_bit :: u32) = unat size_bit"
    by (simp add: unsigned_ucast_eq)
  have "(1::u32) \<le> ucast size_bit" using assms(1) u by (simp add: word_le_nat_alt)
  then show ?thesis using u by (simp add: unat_sub)
qed

lemma packed_bits:
  fixes attr :: u16 and srd :: u8 and w :: u32
  assumes "unat w < 2 ^ 5"
  shows "bit (push_bit 16 (ucast attr) OR push_bit 8 (ucast srd) OR push_bit 1 w OR (1::u32)) i \<longleftrightarrow>
     (if i = 0 then True else if i < 6 then bit w (i - 1) else if i < 8 then False
      else if i < 16 then bit srd (i - 8) else i < 32 \<and> bit attr (i - 16))"
proof -
  have w: "bit w j \<Longrightarrow> j < 5" for j using assms by (rule small_bits)
  have s: "bit srd j \<Longrightarrow> j < 8" for j using bit_imp_le_length [of srd j] by simp
  have a: "bit attr j \<Longrightarrow> j < 16" for j using bit_imp_le_length [of attr j] by simp
  show ?thesis
    unfolding bit_or_iff bit_push_bit_iff bit_ucast_iff bit_1_iff possible_bit_word
    using w [of "i - 1"] s [of "i - 8"] a [of "i - 16"]
    by (auto simp only: len_bit0 len_num1 split: if_splits; linarith)
qed

lemma field_attr:
  fixes attr :: u16 and srd :: u8 and w :: u32
  assumes "unat w < 2 ^ 5"
  shows "ucast (drop_bit 16 (push_bit 16 (ucast attr) OR push_bit 8 (ucast srd) OR push_bit 1 w OR (1::u32))) = attr"
proof (rule bit_word_eqI)
  fix i assume "i < LENGTH(16)"
  then show "bit (ucast (drop_bit 16 (push_bit 16 (ucast attr) OR push_bit 8 (ucast srd) OR push_bit 1 w OR (1::u32))) :: u16) i
     \<longleftrightarrow> bit attr i"
    unfolding bit_ucast_iff bit_drop_bit_eq packed_bits [OF assms] by simp
qed

lemma field_srd:
  fixes attr :: u16 and srd :: u8 and w :: u32
  assumes "unat w < 2 ^ 5"
  shows "ucast (drop_bit 8 (ucast (push_bit 16 (ucast attr) OR push_bit 8 (ucast srd) OR push_bit 1 w OR (1::u32)) :: u16)) = srd"
proof (rule bit_word_eqI)
  fix i assume "i < LENGTH(8)"
  then show "bit (ucast (drop_bit 8 (ucast (push_bit 16 (ucast attr) OR push_bit 8 (ucast srd) OR push_bit 1 w OR (1::u32)) :: u16)) :: u8) i
     \<longleftrightarrow> bit srd i"
    unfolding bit_ucast_iff bit_drop_bit_eq packed_bits [OF assms] by simp
qed

lemma field_size8:
  fixes attr :: u16 and srd :: u8 and w :: u32
  assumes "unat w < 2 ^ 5"
  shows "(ucast (drop_bit 1 (ucast (push_bit 16 (ucast attr) OR push_bit 8 (ucast srd) OR push_bit 1 w OR (1::u32)) :: u16) AND 0x1F) :: u8) = ucast w"
proof (rule bit_word_eqI)
  fix i assume i: "i < LENGTH(8)"
  have m: "(0x1F :: u16) = mask 5" by (simp add: mask_numeral)
  have w: "bit w i \<Longrightarrow> i < 5" using assms by (rule small_bits)
  show "bit (ucast (drop_bit 1 (ucast (push_bit 16 (ucast attr) OR push_bit 8 (ucast srd) OR push_bit 1 w OR (1::u32)) :: u16) AND 0x1F) :: u8) i
     \<longleftrightarrow> bit (ucast w :: u8) i"
    unfolding m bit_ucast_iff bit_and_iff bit_mask_iff bit_drop_bit_eq packed_bits [OF assms] using i w by auto
qed

lemma field_enable:
  fixes attr :: u16 and srd :: u8 and w :: u32
  assumes "unat w < 2 ^ 5"
  shows "bit (ucast (push_bit 16 (ucast attr) OR push_bit 8 (ucast srd) OR push_bit 1 w OR (1::u32)) :: u16) 0"
  unfolding bit_ucast_iff packed_bits [OF assms] by simp

lemma unat_ucast_u8_u32: "unat (ucast (x::u8) :: u32) = unat x"
proof -
  have "unat x < 2 ^ LENGTH(8)" by (rule unsigned_less)
  then have "unat x < 2 ^ 32" by simp
  then have "take_bit 32 (unat x) = unat x" by (rule take_bit_nat_eq_self)
  then show ?thesis by (simp add: unsigned_ucast_eq)
qed

lemma ucast_u8_u32_eq: "(ucast (a::u8) :: u32) = ucast (b::u8) \<longleftrightarrow> a = b"
proof
  assume "(ucast a :: u32) = ucast b"
  then have "unat (ucast a :: u32) = unat (ucast b :: u32)" by simp
  then have "unat a = unat b" by (simp only: unat_ucast_u8_u32)
  then show "a = b" by (simp add: word_eq_iff_unsigned [where ?'a = nat])
qed simp

text \<open>
  After an accepted call the registers of the slot hold the base address and the packed
  word when \<^verbatim>\<open>enable\<close> is not 0, and the old size with bit 0 cleared otherwise; read
  back, they are the encoding passed in. The registers of every other slot keep their
  values.
\<close>

lemma mpu_update_region_slot:
  assumes "fst (mpu_update_region h region addr size_bit attr enable srd s) = EC_SUCCESS"
  shows "MPU_BASE (snd (mpu_update_region h region addr size_bit attr enable srd s)) =
           (MPU_BASE s)(ucast region := if enable \<noteq> 0 then addr else MPU_BASE s (ucast region))"
    and "MPU_SIZE (snd (mpu_update_region h region addr size_bit attr enable srd s)) =
           (MPU_SIZE s)(ucast region :=
              if enable \<noteq> 0
              then ucast (push_bit 16 (ucast attr) OR push_bit 8 (ucast srd)
                     OR push_bit 1 (ucast size_bit - 1) OR (1::u32))
              else MPU_SIZE s (ucast region) AND NOT 1)"
    and "MPU_ATTR (snd (mpu_update_region h region addr size_bit attr enable srd s)) =
           (MPU_ATTR s)(ucast region :=
              if enable \<noteq> 0
              then ucast (drop_bit 16 (push_bit 16 (ucast attr) OR push_bit 8 (ucast srd)
                     OR push_bit 1 (ucast size_bit - 1) OR (1::u32)))
              else MPU_ATTR s (ucast region))"
proof -
  note acc = mpu_update_region_accepts [OF assms(1)]
  have n5: "\<not> size_bit < 5" using acc(4) by (simp add: word_less_nat_alt)
  show "MPU_BASE (snd (mpu_update_region h region addr size_bit attr enable srd s)) =
           (MPU_BASE s)(ucast region := if enable \<noteq> 0 then addr else MPU_BASE s (ucast region))"
    using acc n5
    by (simp add: mpu_update_region_def is_aligned_BIT_iff MPU_SIZE_BITS_MIN_def Let_def
        emit_def barrier_def store_NUMBER_def store_SIZE_def store_BASE_def store_SIZE32_def)
  show "MPU_SIZE (snd (mpu_update_region h region addr size_bit attr enable srd s)) =
           (MPU_SIZE s)(ucast region :=
              if enable \<noteq> 0
              then ucast (push_bit 16 (ucast attr) OR push_bit 8 (ucast srd)
                     OR push_bit 1 (ucast size_bit - 1) OR (1::u32))
              else MPU_SIZE s (ucast region) AND NOT 1)"
    using acc n5
    by (simp add: mpu_update_region_def is_aligned_BIT_iff MPU_SIZE_BITS_MIN_def Let_def
        emit_def barrier_def store_NUMBER_def store_SIZE_def store_BASE_def store_SIZE32_def)
  show "MPU_ATTR (snd (mpu_update_region h region addr size_bit attr enable srd s)) =
           (MPU_ATTR s)(ucast region :=
              if enable \<noteq> 0
              then ucast (drop_bit 16 (push_bit 16 (ucast attr) OR push_bit 8 (ucast srd)
                     OR push_bit 1 (ucast size_bit - 1) OR (1::u32)))
              else MPU_ATTR s (ucast region))"
    using acc n5
    by (simp add: mpu_update_region_def is_aligned_BIT_iff MPU_SIZE_BITS_MIN_def Let_def
        emit_def barrier_def store_NUMBER_def store_SIZE_def store_BASE_def store_SIZE32_def)
qed

lemma mpu_update_region_registers:
  assumes "fst (mpu_update_region h region addr size_bit attr enable srd s) = EC_SUCCESS"
      and "enable \<noteq> 0"
  shows "slot_encoding (snd (mpu_update_region h region addr size_bit attr enable srd s)) region =
           \<lparr>enc_region = region, enc_addr = addr, enc_size_bit = size_bit, enc_attr = attr,
            enc_enable = 1, enc_srd = srd\<rparr>"
proof -
  note acc = mpu_update_region_accepts [OF assms(1)]
  note sl = mpu_update_region_slot [OF assms(1)]
  define w where "w = (ucast size_bit - 1 :: u32)"
  have uw: "unat w = unat size_bit - 1" unfolding w_def using acc(4,1) by (rule size_field)
  then have w5: "unat w < 2 ^ 5" using acc(1) by simp
  have sb: "ucast w + (1::u8) = size_bit"
  proof -
    have "unat (ucast w :: u8) = unat w" using w5 by (intro unat_ucast_u8_small) simp
    then have "unat (ucast w + (1::u8)) = unat w + 1"
      using w5 by (simp add: unat_word_ariths)
    then have "unat (ucast w + (1::u8)) = unat size_bit" using uw acc(4) by simp
    then show ?thesis by (simp add: word_eq_iff_unsigned [where ?'a = nat])
  qed
  show ?thesis
    unfolding slot_encoding_def sl w_def [symmetric]
    using assms(2)
    by (simp only: fun_upd_same if_True field_attr [OF w5] field_srd [OF w5] field_size8 [OF w5]
        field_enable [OF w5] sb simp_thms)
qed

lemma mpu_update_region_other_slot:
  assumes "r \<noteq> region"
  shows "slot_encoding (snd (mpu_update_region h region addr size_bit attr enable srd s)) r =
           slot_encoding s r"
proof (cases "fst (mpu_update_region h region addr size_bit attr enable srd s) = EC_SUCCESS")
  case True
  have "(ucast r :: u32) \<noteq> ucast region" using assms by (simp add: ucast_u8_u32_eq)
  then show ?thesis
    unfolding slot_encoding_def mpu_update_region_slot [OF True] by simp
next
  case False
  obtain rv s' where e: "mpu_update_region h region addr size_bit attr enable srd s = (rv, s')"
    by (cases "mpu_update_region h region addr size_bit attr enable srd s")
  with False have "rv \<noteq> EC_SUCCESS" by simp
  with e have "s' = s"
    by (auto simp add: mpu_update_region_def Let_def split: if_splits)
  with e show ?thesis by simp
qed

text \<open>
  Claim C10. Whenever \<^verbatim>\<open>mpu_update_region\<close> returns an error, the state it returns is
  the state it was given: no register has changed and the trace has no new event, so
  neither a barrier nor a store was issued. The error is \<^verbatim>\<open>-EC_ERROR_INVAL\<close>, and it
  comes from one of the three checks: the base address is not a multiple of
  \<open>2 ^ size_bit\<close> (or \<^verbatim>\<open>BIT(size_bit)\<close> is no power of two), the slot index is at or
  beyond the region count, or the size exponent is below the minimum of 5.
\<close>

theorem mpu_update_region_error_leaves_state:
  assumes "mpu_update_region h region addr size_bit attr enable srd s = (rv, s')"
      and "rv \<noteq> EC_SUCCESS"
  shows "s' = s \<and> rv = Neg_EC_ERROR_INVAL \<and>
         (\<not> (unat size_bit < 32 \<and> 2 ^ unat size_bit dvd unat addr) \<or>
           mpu_num_regions h s \<le> uint region \<or> unat size_bit < 5)"
  using assms
  by (auto simp add: mpu_update_region_def is_aligned_BIT_iff MPU_SIZE_BITS_MIN_def Let_def
        word_less_nat_alt split: if_splits)

text \<open>
  On the sample configuration with 8 regions: slot 200 does not exist, the call fails
  and the state is the one before.
\<close>

theorem mpu_update_region_error_leaves_state_witness:
  "mpu_update_region ex_platform 200 0 5 0 1 0 (ex_state 0x800)
     = (Neg_EC_ERROR_INVAL, ex_state 0x800)
   \<and> Neg_EC_ERROR_INVAL \<noteq> EC_SUCCESS
   \<and> mpu_num_regions ex_platform (ex_state 0x800) \<le> uint (200 :: u8)"
proof -
  have h: "mpu_update_region ex_platform 200 0 5 0 1 0 (ex_state 0x800)
             = (Neg_EC_ERROR_INVAL, ex_state 0x800)"
    by (simp add: mpu_update_region_def is_aligned_def BIT_def POWER_OF_TWO_def
        mpu_num_regions_def mpu_get_type_def ex_platform_def ex_state_def)
  have n: "mpu_num_regions ex_platform (ex_state 0x800) \<le> uint (200 :: u8)"
    by (simp add: mpu_num_regions_def mpu_get_type_def ex_platform_def ex_state_def)
  from mpu_update_region_error_leaves_state [OF h] h n show ?thesis by simp
qed

section \<open>Configuring a byte range: \<^verbatim>\<open>mpu_config_region\<close>\<close>

subsection \<open>The paths through the function\<close>

text \<open>
  Every call adds its request to the trace, and no other request.
\<close>

lemma mpu_config_region_effect:
  "\<exists>evs. trace (snd (mpu_config_region h region addr sz attr enable s)) =
       trace s @ Config_request \<lparr>req_region = region, req_addr = addr, req_size = sz,
         req_attr = attr, req_enable = enable\<rparr> # evs \<and>
     requests_of evs = []"
proof -
  let ?s = "emit (Config_request \<lparr>req_region = region, req_addr = addr, req_size = sz,
         req_attr = attr, req_enable = enable\<rparr>) s"
  have t: "trace ?s = trace s @ [Config_request \<lparr>req_region = region, req_addr = addr, req_size = sz,
         req_attr = attr, req_enable = enable\<rparr>]" by (simp add: emit_def)
  have one: "\<exists>evs. trace (snd (mpu_update_region h r a sb attr enable srd ?s)) = trace ?s @ evs \<and> requests_of evs = []"
    for r a sb srd
    using mpu_update_region_effect [of h r a sb attr enable srd ?s] by blast
  have two: "\<exists>evs. trace (snd (mpu_update_region h r2 a2 sb2 attr enable srd2
                 (snd (mpu_update_region h r a sb attr enable srd ?s)))) = trace ?s @ evs \<and> requests_of evs = []"
    for r a sb srd r2 a2 sb2 srd2
  proof -
    let ?s1 = "snd (mpu_update_region h r a sb attr enable srd ?s)"
    from one [of r a sb srd] obtain e1 where e1: "trace ?s1 = trace ?s @ e1" "requests_of e1 = []" by blast
    from mpu_update_region_effect [of h r2 a2 sb2 attr enable srd2 ?s1]
    obtain e2 where e2: "trace (snd (mpu_update_region h r2 a2 sb2 attr enable srd2 ?s1)) = trace ?s1 @ e2"
      "requests_of e2 = []" by blast
    from e1 e2 show ?thesis by (intro exI [of _ "e1 @ e2"]) (simp add: requests_of_append)
  qed
  have "\<exists>evs. trace (snd (mpu_config_region h region addr sz attr enable s)) = trace ?s @ evs \<and> requests_of evs = []"
    unfolding mpu_config_region_def Let_def
    using one two by (auto split: prod.splits simp add: split_beta)
  then show ?thesis by (simp add: t)
qed

lemma mpu_config_region_requests:
  "requests_of (new_events s (snd (mpu_config_region h region addr sz attr enable s))) =
     [\<lparr>req_region = region, req_addr = addr, req_size = sz, req_attr = attr, req_enable = enable\<rparr>]"
proof -
  from mpu_config_region_effect [of h region addr sz attr enable s]
  obtain evs where "trace (snd (mpu_config_region h region addr sz attr enable s)) =
       trace s @ Config_request \<lparr>req_region = region, req_addr = addr, req_size = sz,
         req_attr = attr, req_enable = enable\<rparr> # evs" "requests_of evs = []" by blast
  then show ?thesis by (simp add: new_events_def)
qed

text \<open>
  The three paths that reach \<^verbatim>\<open>mpu_update_region\<close>: a length that is a power of two,
  a rounded region alone (\<^verbatim>\<open>srd2\<close> is 0), and a rounded region with a second region.
  A successful call of the last two has passed the guards on \<^verbatim>\<open>size_bit\<close>, on the low
  bits of the length and on the second region.
\<close>

lemma mpu_config_region_pow2:
  assumes "unat sz = 2 ^ k" "5 \<le> k"
  shows "mpu_config_region h region addr sz attr enable s =
           mpu_update_region h region addr (of_nat k) attr enable 0
             (emit (Config_request \<lparr>req_region = region, req_addr = addr, req_size = sz,
                req_attr = attr, req_enable = enable\<rparr>) s)"
    and "unat (of_nat k :: u8) = k" and "k < 32"
proof -
  have b: "2 ^ k \<le> unat sz" "unat sz < 2 ^ Suc k" using assms(1) by simp_all
  note sb = size_bit_eq [OF b]
  from sb(3) show "unat (of_nat k :: u8) = k" by (simp add: unat_of_nat_u8)
  from sb(3) show "k < 32" by simp
  have "POWER_OF_TWO sz" using POWER_OF_TWO_size_bit [OF b] assms(1) by simp
  with sb assms(2) show "mpu_config_region h region addr sz attr enable s =
           mpu_update_region h region addr (of_nat k) attr enable 0
             (emit (Config_request \<lparr>req_region = region, req_addr = addr, req_size = sz,
                req_attr = attr, req_enable = enable\<rparr>) s)"
    by (simp add: mpu_config_region_def Let_def)
qed

lemma mpu_config_region_one_rounded:
  assumes "sz \<noteq> 0" "31 - builtin_clz sz = k" "\<not> POWER_OF_TWO sz" "7 \<le> k"
      and "sz AND NOT (push_bit (k - 5) 0x3f) = 0"
      and "(ucast (push_bit (unat (drop_bit (k - 5) sz AND 0x7)) (1::u32) - 1) :: u8) = 0"
  shows "mpu_config_region h region addr sz attr enable s =
           mpu_update_region h region addr (of_nat (k + 1)) attr enable
             (NOT (ucast (BIT (unat (ucast (drop_bit (k - 2) sz) :: u8)) - 1)))
             (emit (Config_request \<lparr>req_region = region, req_addr = addr, req_size = sz,
                  req_attr = attr, req_enable = enable\<rparr>) s)"
  using assms
  by (simp add: mpu_config_region_def Let_def split_beta prod_eq_iff)

lemma mpu_config_region_two_rounded:
  assumes "sz \<noteq> 0" "31 - builtin_clz sz = k" "\<not> POWER_OF_TWO sz" "7 \<le> k"
      and "sz AND NOT (push_bit (k - 5) 0x3f) = 0"
      and "(ucast (push_bit (unat (drop_bit (k - 5) sz AND 0x7)) (1::u32) - 1) :: u8) \<noteq> 0"
      and "region \<noteq> REGION_DATA_RAM_TEXT h" "10 \<le> k"
  shows "mpu_config_region h region addr sz attr enable s =
     (let u1 = mpu_update_region h region addr (of_nat (k + 1)) attr enable
                 (NOT (ucast (BIT (unat (ucast (drop_bit (k - 2) sz) :: u8)) - 1)))
                 (emit (Config_request \<lparr>req_region = region, req_addr = addr, req_size = sz,
                  req_attr = attr, req_enable = enable\<rparr>) s)
      in if fst u1 \<noteq> EC_SUCCESS then u1
         else mpu_update_region h (region + 1)
                (addr + push_bit (k - 2) 1 * ucast (ucast (drop_bit (k - 2) sz) :: u8))
                (of_nat (k - 2)) attr enable
                (NOT (ucast (push_bit (unat (drop_bit (k - 5) sz AND 0x7)) (1::u32) - 1))) (snd u1))"
  using assms
  by (simp add: mpu_config_region_def Let_def split_beta prod_eq_iff)

lemma mpu_config_region_rounded_guard:
  assumes "sz \<noteq> 0" "31 - builtin_clz sz = k" "\<not> POWER_OF_TWO sz" 
      and "fst (mpu_config_region h region addr sz attr enable s) = EC_SUCCESS"
  shows "7 \<le> k" "sz AND NOT (push_bit (k - 5) 0x3f) = 0"
    "(ucast (push_bit (unat (drop_bit (k - 5) sz AND 0x7)) (1::u32) - 1) :: u8) \<noteq> 0
       \<Longrightarrow> region \<noteq> REGION_DATA_RAM_TEXT h \<and> 10 \<le> k"
proof -
  show k7: "7 \<le> k"
  proof (rule ccontr)
    assume "\<not> 7 \<le> k"
    with assms(1-3) have "fst (mpu_config_region h region addr sz attr enable s) = Neg_EC_ERROR_INVAL"
      by (simp add: mpu_config_region_def Let_def)
    with assms(4) show False by simp
  qed
  show m: "sz AND NOT (push_bit (k - 5) 0x3f) = 0"
  proof (rule ccontr)
    assume "sz AND NOT (push_bit (k - 5) 0x3f) \<noteq> 0"
    with assms(1-3) k7 have "fst (mpu_config_region h region addr sz attr enable s) = Neg_EC_ERROR_INVAL"
      by (simp add: mpu_config_region_def Let_def)
    with assms(4) show False by simp
  qed
  assume s2: "(ucast (push_bit (unat (drop_bit (k - 5) sz AND 0x7)) (1::u32) - 1) :: u8) \<noteq> 0"
  show "region \<noteq> REGION_DATA_RAM_TEXT h \<and> 10 \<le> k"
  proof (rule ccontr)
    assume "\<not> (region \<noteq> REGION_DATA_RAM_TEXT h \<and> 10 \<le> k)"
    then have "region = REGION_DATA_RAM_TEXT h \<or> k < 10" by auto
    with assms(1-3) k7 m s2 have "fst (mpu_config_region h region addr sz attr enable s) = Neg_EC_ERROR_INVAL"
      by (simp add: mpu_config_region_def Let_def)
    with assms(4) show False by simp
  qed
qed

subsection \<open>Requests that are refused\<close>

text \<open>
  Claim C7. A request of length 0 returns \<^verbatim>\<open>EC_SUCCESS\<close> whatever the slot, the base
  address, the attributes and the enable flag are. The state returned differs from the
  state given by the one history event of the request: no register has changed, no
  barrier or store was issued and no region was written.
\<close>

theorem mpu_config_region_zero_size:
  "mpu_config_region h region addr 0 attr enable s =
    (EC_SUCCESS, s\<lparr>trace := trace s @ [Config_request \<lparr>req_region = region, req_addr = addr,
        req_size = 0, req_attr = attr, req_enable = enable\<rparr>]\<rparr>)"
  by (simp add: mpu_config_region_def emit_def)

text \<open>
  Claim C6. A length whose most significant set bit is bit \<open>k\<close>
  (\<open>2 ^ k \<le> size < 2 ^ (k + 1)\<close>, so \<open>k\<close> is the integer part of its binary logarithm)
  with \<open>k\<close> below the minimum exponent 5 is a length below the minimum region size of
  32 bytes, and its request fails with \<^verbatim>\<open>-EC_ERROR_INVAL\<close> (the code's one error value,
  here for an invalid size); no region is written and no register changes. The length 0
  has no set bit: it is the request of claim C7.
\<close>

theorem mpu_config_region_below_minimum:
  assumes "2 ^ k \<le> unat sz" "unat sz < 2 ^ Suc k" "k < 5"
  shows "unat sz < 32 \<and>
    mpu_config_region h region addr sz attr enable s =
    (Neg_EC_ERROR_INVAL, s\<lparr>trace := trace s @ [Config_request \<lparr>req_region = region,
        req_addr = addr, req_size = sz, req_attr = attr, req_enable = enable\<rparr>]\<rparr>)"
proof -
  note sb = size_bit_eq [OF assms(1,2)]
  have "Suc k \<le> 5" using assms(3) by simp
  then have "(2::nat) ^ Suc k \<le> 2 ^ 5" by (rule power_increasing) simp
  with assms(2) have "unat sz < 32" by simp
  moreover from sb assms(3) have "mpu_config_region h region addr sz attr enable s =
    (Neg_EC_ERROR_INVAL, s\<lparr>trace := trace s @ [Config_request \<lparr>req_region = region,
        req_addr = addr, req_size = sz, req_attr = attr, req_enable = enable\<rparr>]\<rparr>)"
    by (simp add: mpu_config_region_def emit_def)
  ultimately show ?thesis by simp
qed

text \<open>A request of 16 bytes in slot 0 of the sample configuration.\<close>

theorem mpu_config_region_below_minimum_witness:
  "2 ^ 4 \<le> unat (16 :: u32) \<and> unat (16 :: u32) < 2 ^ Suc 4 \<and> (4 :: nat) < 5 \<and>
   fst (mpu_config_region ex_platform 0 0x20000000 16 0x1300 1 (ex_state 0x800))
     = Neg_EC_ERROR_INVAL \<and>
   encodings_of (trace (snd (mpu_config_region ex_platform 0 0x20000000 16 0x1300 1
     (ex_state 0x800)))) = []"
proof -
  have a: "2 ^ 4 \<le> unat (16 :: u32)" "unat (16 :: u32) < 2 ^ Suc 4" "(4 :: nat) < 5"
    by simp_all
  from mpu_config_region_below_minimum [OF a, where h = ex_platform and region = 0
      and addr = "0x20000000" and attr = "0x1300" and enable = 1 and s = "ex_state 0x800"] a
  show ?thesis by (simp add: ex_state_def)
qed

text \<open>
  Claim C5. Let \<open>k\<close> be the position of the most significant set bit of a non-zero
  length (\<open>2 ^ k \<le> size < 2 ^ (k + 1)\<close>). The derived region size is \<open>2 ^ k\<close> when the
  length is that power of two, and \<open>2 ^ (k + 1)\<close>, the size of the first rounded region,
  otherwise. When the base address is not a multiple of the derived size the request
  fails with \<^verbatim>\<open>-EC_ERROR_INVAL\<close> (the code's one error value, here for a misaligned
  base), whether or not it passes the size checks, and neither a region nor a register
  is written.
\<close>

theorem mpu_config_region_misaligned:
  assumes "2 ^ k \<le> unat sz" "unat sz < 2 ^ Suc k"
      and "\<not> (if unat sz = 2 ^ k then 2 ^ k else 2 ^ Suc k) dvd unat addr"
  shows "mpu_config_region h region addr sz attr enable s =
    (Neg_EC_ERROR_INVAL, s\<lparr>trace := trace s @ [Config_request \<lparr>req_region = region,
        req_addr = addr, req_size = sz, req_attr = attr, req_enable = enable\<rparr>]\<rparr>)"
proof -
  note sb = size_bit_eq [OF assms(1,2)]
  note p2 = POWER_OF_TWO_size_bit [OF assms(1,2)]
  have u: "unat (of_nat k :: u8) = k" "unat (1 + of_nat k :: u8) = Suc k"
    using sb(3) unat_of_nat_u8 [of k] unat_of_nat_u8 [of "Suc k"] by simp_all
  show ?thesis
  proof (cases "unat sz = 2 ^ k")
    case True
    with assms(3) have "\<not> 2 ^ k dvd unat addr" by simp
    then have "mpu_update_region h region addr (of_nat k) attr enable srd s1 = (Neg_EC_ERROR_INVAL, s1)" for srd s1
      by (intro mpu_update_region_error) (simp add: u)
    with True sb p2 show ?thesis
      by (simp add: mpu_config_region_def emit_def Let_def)
  next
    case False
    with assms(3) have "\<not> 2 ^ Suc k dvd unat addr" by simp
    then have "mpu_update_region h region addr (of_nat (Suc k)) attr enable srd s1 = (Neg_EC_ERROR_INVAL, s1)" for srd s1
      by (intro mpu_update_region_error) (simp add: u)
    with False sb p2 show ?thesis
      by (simp add: mpu_config_region_def emit_def Let_def)
  qed
qed

text \<open>
  In slot 0 of the sample configuration: 64 bytes at an address that is a multiple of 32
  only, and 1536 bytes (a rounded region of 2048 bytes) at an address that is a multiple
  of 1024 only.
\<close>

theorem mpu_config_region_misaligned_witness:
  "2 ^ 6 \<le> unat (64 :: u32) \<and> unat (64 :: u32) < 2 ^ Suc 6 \<and>
   \<not> (if unat (64 :: u32) = 2 ^ 6 then 2 ^ 6 else 2 ^ Suc 6) dvd unat (0x20000020 :: u32) \<and>
   fst (mpu_config_region ex_platform 0 0x20000020 64 0x1300 1 (ex_state 0x800))
     = Neg_EC_ERROR_INVAL \<and>
   2 ^ 10 \<le> unat (1536 :: u32) \<and> unat (1536 :: u32) < 2 ^ Suc 10 \<and>
   \<not> (if unat (1536 :: u32) = 2 ^ 10 then 2 ^ 10 else 2 ^ Suc 10) dvd unat (0x20000400 :: u32) \<and>
   fst (mpu_config_region ex_platform 0 0x20000400 1536 0x1300 1 (ex_state 0x800))
     = Neg_EC_ERROR_INVAL"
proof -
  have a: "2 ^ 6 \<le> unat (64 :: u32)" "unat (64 :: u32) < 2 ^ Suc 6"
    "\<not> (if unat (64 :: u32) = 2 ^ 6 then 2 ^ 6 else 2 ^ Suc 6) dvd unat (0x20000020 :: u32)"
    by simp_all
  have b: "2 ^ 10 \<le> unat (1536 :: u32)" "unat (1536 :: u32) < 2 ^ Suc 10"
    "\<not> (if unat (1536 :: u32) = 2 ^ 10 then 2 ^ 10 else 2 ^ Suc 10) dvd unat (0x20000400 :: u32)"
    by simp_all
  from mpu_config_region_misaligned [OF a, where h = ex_platform and region = 0
        and attr = "0x1300" and enable = 1 and s = "ex_state 0x800"]
    mpu_config_region_misaligned [OF b, where h = ex_platform and region = 0
        and attr = "0x1300" and enable = 1 and s = "ex_state 0x800"] a b
  show ?thesis by simp
qed

text \<open>
  Claim C4. A length that is not a power of two and whose second sub-region mask
  \<^verbatim>\<open>srd2\<close> (the code's expression, with \<open>k\<close> for \<^verbatim>\<open>size_bit\<close>) is not zero needs a
  second region. When the slot is \<^verbatim>\<open>REGION_DATA_RAM_TEXT\<close> or \<^verbatim>\<open>size_bit\<close> is below
  10, the request fails with \<^verbatim>\<open>-EC_ERROR_INVAL\<close> (the code's one error value, here for
  a range it cannot represent) and neither a region nor a register is written.
\<close>

theorem mpu_config_region_second_region_refused:
  assumes "2 ^ k \<le> unat sz" "unat sz < 2 ^ Suc k" "unat sz \<noteq> 2 ^ k"
      and "(ucast (push_bit (unat (drop_bit (k - 5) sz AND 0x7)) (1::u32) - 1) :: u8) \<noteq> 0"
      and "region = REGION_DATA_RAM_TEXT h \<or> k < 10"
  shows "mpu_config_region h region addr sz attr enable s =
    (Neg_EC_ERROR_INVAL, s\<lparr>trace := trace s @ [Config_request \<lparr>req_region = region,
        req_addr = addr, req_size = sz, req_attr = attr, req_enable = enable\<rparr>]\<rparr>)"
proof -
  note sb = size_bit_eq [OF assms(1,2)]
  note p2 = POWER_OF_TWO_size_bit [OF assms(1,2)]
  from assms(3-) sb p2 show ?thesis
    by (simp add: mpu_config_region_def emit_def Let_def)
qed

text \<open>
  On the sample configuration: 1152 bytes (\<^verbatim>\<open>size_bit\<close> 10) in the slot of the exempt
  text, and 576 bytes (\<^verbatim>\<open>size_bit\<close> 9) in slot 0.
\<close>

theorem mpu_config_region_second_region_refused_witness:
  "2 ^ 10 \<le> unat (1152 :: u32) \<and> unat (1152 :: u32) < 2 ^ Suc 10 \<and> unat (1152 :: u32) \<noteq> 2 ^ 10 \<and>
   (ucast (push_bit (unat (drop_bit (10 - 5) (1152 :: u32) AND 0x7)) (1::u32) - 1) :: u8) \<noteq> 0 \<and>
   6 = REGION_DATA_RAM_TEXT ex_platform \<and>
   fst (mpu_config_region ex_platform 6 0x20000000 1152 0x1300 1 (ex_state 0x800))
     = Neg_EC_ERROR_INVAL \<and>
   2 ^ 9 \<le> unat (576 :: u32) \<and> unat (576 :: u32) < 2 ^ Suc 9 \<and> unat (576 :: u32) \<noteq> 2 ^ 9 \<and>
   (ucast (push_bit (unat (drop_bit (9 - 5) (576 :: u32) AND 0x7)) (1::u32) - 1) :: u8) \<noteq> 0 \<and>
   (9 :: nat) < 10 \<and>
   fst (mpu_config_region ex_platform 0 0x20000000 576 0x1300 1 (ex_state 0x800))
     = Neg_EC_ERROR_INVAL"
proof -
  have a: "2 ^ 10 \<le> unat (1152 :: u32)" "unat (1152 :: u32) < 2 ^ Suc 10"
    "unat (1152 :: u32) \<noteq> 2 ^ 10"
    "(ucast (push_bit (unat (drop_bit (10 - 5) (1152 :: u32) AND 0x7)) (1::u32) - 1) :: u8) \<noteq> 0"
    by simp_all
  have a': "6 = REGION_DATA_RAM_TEXT ex_platform \<or> (10 :: nat) < 10"
    by (simp add: ex_platform_def)
  have b: "2 ^ 9 \<le> unat (576 :: u32)" "unat (576 :: u32) < 2 ^ Suc 9"
    "unat (576 :: u32) \<noteq> 2 ^ 9"
    "(ucast (push_bit (unat (drop_bit (9 - 5) (576 :: u32) AND 0x7)) (1::u32) - 1) :: u8) \<noteq> 0"
    by simp_all
  have b': "0 = REGION_DATA_RAM_TEXT ex_platform \<or> (9 :: nat) < 10" by simp
  from mpu_config_region_second_region_refused [OF a a', where addr = "0x20000000"
        and attr = "0x1300" and enable = 1 and s = "ex_state 0x800"]
    mpu_config_region_second_region_refused [OF b b', where addr = "0x20000000"
        and attr = "0x1300" and enable = 1 and s = "ex_state 0x800"]
    a b a'
  show ?thesis by (simp add: ex_platform_def)
qed

text \<open>
  A length that is not a power of two and whose most significant set bit lies below
  bit 7 is refused: the code supports no sub-regions for a region of 128 bytes or less.
\<close>

lemma mpu_config_region_small_rounded:
  assumes "2 ^ k \<le> unat sz" "unat sz < 2 ^ Suc k" "unat sz \<noteq> 2 ^ k" "k < 7"
  shows "mpu_config_region h region addr sz attr enable s =
    (Neg_EC_ERROR_INVAL, s\<lparr>trace := trace s @ [Config_request \<lparr>req_region = region,
        req_addr = addr, req_size = sz, req_attr = attr, req_enable = enable\<rparr>]\<rparr>)"
proof -
  note sb = size_bit_eq [OF assms(1,2)]
  note p2 = POWER_OF_TWO_size_bit [OF assms(1,2)]
  from assms(3-) sb p2 show ?thesis
    by (simp add: mpu_config_region_def emit_def Let_def)
qed

text \<open>
  Claim C3, as amended. A request of 96 bytes fails with \<^verbatim>\<open>-EC_ERROR_INVAL\<close> at every
  base address, aligned to 128 bytes or not, in every slot and state: 96 is not a power
  of two and its \<^verbatim>\<open>size_bit\<close> is 6, below the 7 that the code requires before it uses
  sub-regions. No encoding is produced and no register is written.
\<close>

theorem mpu_config_region_96_bytes_refused:
  "mpu_config_region h region addr 96 attr enable s =
    (Neg_EC_ERROR_INVAL, s\<lparr>trace := trace s @ [Config_request \<lparr>req_region = region,
        req_addr = addr, req_size = 96, req_attr = attr, req_enable = enable\<rparr>]\<rparr>)"
  by (rule mpu_config_region_small_rounded [of 6]) simp_all

text \<open>
  Claim C3 as stated fails: 96 bytes at \<open>0x20000000\<close>, a multiple of 128, in slot 0 of
  the sample configuration with 8 regions. The call does not succeed and produces no
  encoding.
\<close>

theorem mpu_config_region_96_bytes_counterexample:
  "128 dvd unat (0x20000000 :: u32) \<and>
   fst (mpu_config_region ex_platform 0 0x20000000 96 0x1300 1 (ex_state 0x800))
     = Neg_EC_ERROR_INVAL \<and>
   encodings_of (new_events (ex_state 0x800)
     (snd (mpu_config_region ex_platform 0 0x20000000 96 0x1300 1 (ex_state 0x800)))) = []"
proof (intro conjI)
  show "128 dvd unat (0x20000000 :: u32)" by simp
  show "fst (mpu_config_region ex_platform 0 0x20000000 96 0x1300 1 (ex_state 0x800))
          = Neg_EC_ERROR_INVAL" by code_simp
  show "encodings_of (new_events (ex_state 0x800)
          (snd (mpu_config_region ex_platform 0 0x20000000 96 0x1300 1 (ex_state 0x800)))) = []"
    by code_simp
qed

subsection \<open>A length that is a power of two\<close>

text \<open>
  Claim C2, as amended. For a length \<open>2 ^ k\<close> of at least 32 bytes, a base address
  that is a multiple of the length and a slot index below the region count, the request
  succeeds and produces exactly one encoding: in the slot asked for, at the base address,
  with size exponent \<open>k\<close> (the 8-bit value passed on is \<open>k\<close> itself) and with the
  sub-region mask 0, which disables no sub-region.
\<close>

theorem mpu_config_region_power_of_two:
  assumes "unat sz = 2 ^ k" "32 \<le> unat sz" "unat sz dvd unat addr"
      and "uint region < mpu_num_regions h s"
  shows "fst (mpu_config_region h region addr sz attr enable s) = EC_SUCCESS \<and>
         encodings_of (new_events s (snd (mpu_config_region h region addr sz attr enable s))) =
           [\<lparr>enc_region = region, enc_addr = addr, enc_size_bit = of_nat k, enc_attr = attr,
             enc_enable = enable, enc_srd = 0\<rparr>] \<and>
         unat (of_nat k :: u8) = k"
proof -
  let ?req = "Config_request \<lparr>req_region = region, req_addr = addr, req_size = sz,
                req_attr = attr, req_enable = enable\<rparr>"
  have "(2::nat) ^ 5 \<le> 2 ^ k" using assms(1,2) by simp
  then have k5: "5 \<le> k" by (simp only: power_increasing_iff rel_simps)
  note p = mpu_config_region_pow2 [OF assms(1) k5]
  have ok: "fst (mpu_update_region h region addr (of_nat k) attr enable 0 (emit ?req s)) = EC_SUCCESS"
    using assms p(2,3) k5 by (intro mpu_update_region_ok) (simp_all add: mpu_num_regions_emit)
  from mpu_update_region_effect [of h region addr "of_nat k" attr enable 0 "emit ?req s"] ok
  obtain evs where evs: "trace (snd (mpu_update_region h region addr (of_nat k) attr enable 0 (emit ?req s)))
        = trace (emit ?req s) @ evs"
     "encodings_of evs = [\<lparr>enc_region = region, enc_addr = addr, enc_size_bit = of_nat k, enc_attr = attr,
             enc_enable = enable, enc_srd = 0\<rparr>]" by auto
  have "trace (emit ?req s) = trace s @ [?req]" by (simp add: emit_def)
  then have "new_events s (snd (mpu_config_region h region addr sz attr enable s)) = ?req # evs"
    by (intro new_events_append) (simp add: p(1) evs(1))
  with ok evs(2) p show ?thesis by simp
qed

text \<open>
  128 KiB at \<open>0x08020000\<close> in slot 7 of the sample configuration with 8 regions.
\<close>

theorem mpu_config_region_power_of_two_witness:
  "unat (0x20000 :: u32) = 2 ^ 17 \<and> 32 \<le> unat (0x20000 :: u32) \<and>
   unat (0x20000 :: u32) dvd unat (0x08020000 :: u32) \<and>
   uint (7 :: u8) < mpu_num_regions ex_platform (ex_state 0x800) \<and>
   fst (mpu_config_region ex_platform 7 0x08020000 0x20000 0x1000 1 (ex_state 0x800)) = EC_SUCCESS \<and>
   encodings_of (new_events (ex_state 0x800)
       (snd (mpu_config_region ex_platform 7 0x08020000 0x20000 0x1000 1 (ex_state 0x800)))) =
     [\<lparr>enc_region = 7, enc_addr = 0x08020000, enc_size_bit = 17, enc_attr = 0x1000,
       enc_enable = 1, enc_srd = 0\<rparr>]"
proof -
  have a: "unat (0x20000 :: u32) = 2 ^ 17" "32 \<le> unat (0x20000 :: u32)"
    "unat (0x20000 :: u32) dvd unat (0x08020000 :: u32)"
    by simp_all
  have n: "uint (7 :: u8) < mpu_num_regions ex_platform (ex_state 0x800)"
    by (simp add: mpu_num_regions_def mpu_get_type_def ex_platform_def ex_state_def)
  from mpu_config_region_power_of_two [OF a n, where attr = "0x1000" and enable = 1] a n
  show ?thesis by simp
qed

text \<open>
  Claim C2 as stated fails, for it names no condition on the slot: 32 bytes at
  \<open>0x20000000\<close> in slot 8 (\<^verbatim>\<open>REGION_UNCACHED_RAM\<close> of the sample configuration) on a
  part with 8 regions. The length is a power of two and the base a multiple of it, and
  the call fails without an encoding.
\<close>

theorem mpu_config_region_power_of_two_counterexample:
  "unat (32 :: u32) = 2 ^ 5 \<and> unat (32 :: u32) dvd unat (0x20000000 :: u32) \<and>
   fst (mpu_config_region ex_platform 8 0x20000000 32 0x1300 1 (ex_state 0x800))
     = Neg_EC_ERROR_INVAL \<and>
   encodings_of (new_events (ex_state 0x800)
     (snd (mpu_config_region ex_platform 8 0x20000000 32 0x1300 1 (ex_state 0x800)))) = []"
proof (intro conjI)
  show "unat (32 :: u32) = 2 ^ 5" by simp
  show "unat (32 :: u32) dvd unat (0x20000000 :: u32)" by simp
  show "fst (mpu_config_region ex_platform 8 0x20000000 32 0x1300 1 (ex_state 0x800))
          = Neg_EC_ERROR_INVAL" by code_simp
  show "encodings_of (new_events (ex_state 0x800)
          (snd (mpu_config_region ex_platform 8 0x20000000 32 0x1300 1 (ex_state 0x800)))) = []"
    by code_simp
qed

subsection \<open>The ranges that are accepted\<close>

text \<open>
  Claim C1. When a request with a non-zero length and a non-zero enable flag returns
  \<^verbatim>\<open>EC_SUCCESS\<close>, at most two encodings have been written during the call, and a byte
  address lies in an enabled sub-region of one of them exactly when it lies in the
  requested range, from the base address up to, and not including, the base address plus
  the length.
\<close>

theorem mpu_config_region_exact_cover:
  assumes ok: "mpu_config_region h region addr sz attr enable s = (EC_SUCCESS, s')"
      and nz: "sz \<noteq> 0" and en: "enable \<noteq> 0"
  shows "length (encodings_of (new_events s s')) \<le> 2 \<and>
         (\<forall>a. (\<exists>e \<in> set (encodings_of (new_events s s')). enc_covers e a) \<longleftrightarrow>
              unat addr \<le> a \<and> a < unat addr + unat sz)"
proof -
  define k where "k = 31 - builtin_clz sz"
  define req where "req = Config_request \<lparr>req_region = region, req_addr = addr, req_size = sz,
                  req_attr = attr, req_enable = enable\<rparr>"
  define s0 where "s0 = emit req s"
  have b: "k \<le> 31" "2 ^ k \<le> unat sz" "unat sz < 2 ^ Suc k"
    using size_bit_bounds [OF nz] by (simp_all add: k_def)
  have kk: "31 - builtin_clz sz = k" by (simp add: k_def)
  have f: "fst (mpu_config_region h region addr sz attr enable s) = EC_SUCCESS"
    and s': "s' = snd (mpu_config_region h region addr sz attr enable s)" using ok by simp_all
  have t0: "trace s0 = trace s @ [req]" by (simp add: s0_def emit_def)
  have enc_simp: "encodings_of (req # evs) = encodings_of evs" for evs by (simp add: req_def)
  show ?thesis
  proof (cases "POWER_OF_TWO sz")
    case True
    then have sz: "unat sz = 2 ^ k" using POWER_OF_TWO_imp kk by metis
    have k5: "5 \<le> k"
    proof (rule ccontr)
      assume "\<not> 5 \<le> k"
      with nz kk have "fst (mpu_config_region h region addr sz attr enable s) = Neg_EC_ERROR_INVAL"
        by (simp add: mpu_config_region_def Let_def)
      with f show False by simp
    qed
    define E where "E = (of_nat k :: u8)"
    note p = mpu_config_region_pow2(1) [OF sz k5, where h = h and region = region and addr = addr
          and attr = attr and enable = enable and s = s, folded req_def s0_def E_def]
        mpu_config_region_pow2(2) [OF sz k5, folded E_def]
    from f p(1) have fu: "fst (mpu_update_region h region addr E attr enable 0 s0) = EC_SUCCESS" by simp
    from mpu_update_region_encodings [OF fu t0] obtain evs where
      evs: "trace (snd (mpu_update_region h region addr E attr enable 0 s0)) = trace s @ [req] @ evs"
        "encodings_of evs = [\<lparr>enc_region = region, enc_addr = addr, enc_size_bit = E, enc_attr = attr,
                enc_enable = enable, enc_srd = 0\<rparr>]" by blast
    have "new_events s s' = [req] @ evs"
      by (rule new_events_append) (simp add: s' p(1) evs(1))
    then have encs: "encodings_of (new_events s s') = [\<lparr>enc_region = region, enc_addr = addr,
        enc_size_bit = E, enc_attr = attr, enc_enable = enable, enc_srd = 0\<rparr>]"
      by (simp add: enc_simp evs(2))
    show ?thesis
      by (simp add: encs enc_covers_full [OF en] p(2) sz)
  next
    case False
    note g = mpu_config_region_rounded_guard [OF nz kk False f]
    have dv: "2 ^ (k - 5) dvd unat sz" using g(2) by (rule mask_check_dvd)
    define m where "m = unat sz div 2 ^ (k - 5)"
    note ar = rounded_arith [OF b(2,3) g(1) dv, folded m_def]
    define E1 where "E1 = (of_nat (k + 1) :: u8)"
    define blocks where "blocks = (ucast (drop_bit (k - 2) sz) :: u8)"
    define srd1 where "srd1 = (ucast (BIT (unat blocks) - 1) :: u8)"
    define srd2 where "srd2 = (ucast (push_bit (unat (drop_bit (k - 5) sz AND 0x7)) (1::u32) - 1) :: u8)"
    define u1 where "u1 = mpu_update_region h region addr E1 attr enable (NOT srd1) s0"
    have ub: "unat blocks = m div 8" using ar(4) by (simp add: blocks_def)
    have srd1: "srd1 = ucast (mask (m div 8) :: u32)" by (simp add: srd1_def ub BIT_minus_1)
    have srd2: "srd2 = ucast (mask (m mod 8) :: u32)" by (simp add: srd2_def ar(5) mask_eq_exp_minus_1)
    have E1: "unat E1 = k + 1" unfolding E1_def using b(1) by (intro unat_of_nat_u8) simp
    have pk2: "(2::nat) ^ (k - 2) = 8 * 2 ^ (k - 5)"
    proof -
      have "k - 2 = 3 + (k - 5)" using g(1) by simp
      then have "(2::nat) ^ (k - 2) = 2 ^ 3 * 2 ^ (k - 5)" by (metis power_add)
      then show ?thesis by simp
    qed
    have md: "m div 8 \<le> 8" using ar(3) by linarith
    have E13: "3 \<le> unat E1" "unat E1 - 3 = k - 2" using E1 g(1) by simp_all
    have cov1: "enc_covers \<lparr>enc_region = region, enc_addr = addr, enc_size_bit = E1, enc_attr = attr,
                enc_enable = enable, enc_srd = NOT srd1\<rparr> a \<longleftrightarrow>
         unat addr \<le> a \<and> a < unat addr + (m div 8) * 2 ^ (k - 2)" for a
      unfolding srd1 using enc_covers_masked [OF en E13(1) md, of region addr attr a] E13(2) by simp
    show ?thesis
    proof (cases "srd2 = 0")
      case True
      then have m0: "m mod 8 = 0" by (simp add: srd2 srd_eq_0_iff)
      note one = mpu_config_region_one_rounded [OF nz kk False g(1,2) True [unfolded srd2_def],
          where h = h and region = region and addr = addr and attr = attr and enable = enable and s = s, folded req_def s0_def blocks_def E1_def, folded srd1_def, folded u1_def]
      from f one have fu: "fst u1 = EC_SUCCESS" by simp
      from mpu_update_region_encodings [OF fu [unfolded u1_def] t0, folded u1_def] obtain evs where
        evs: "trace (snd u1) = trace s @ [req] @ evs"
        "encodings_of evs = [\<lparr>enc_region = region, enc_addr = addr, enc_size_bit = E1, enc_attr = attr,
                enc_enable = enable, enc_srd = NOT srd1\<rparr>]" by blast
      have "new_events s s' = [req] @ evs"
        by (rule new_events_append) (simp add: s' one evs(1))
      then have encs: "encodings_of (new_events s s') = [\<lparr>enc_region = region, enc_addr = addr,
          enc_size_bit = E1, enc_attr = attr, enc_enable = enable, enc_srd = NOT srd1\<rparr>]"
        by (simp add: enc_simp evs(2))
      have "m = m div 8 * 8" using m0 by presburger
      then have "unat sz = m div 8 * 8 * 2 ^ (k - 5)" using ar(1) by simp
      then have szeq: "unat sz = (m div 8) * 2 ^ (k - 2)" by (simp add: pk2)
      show ?thesis
        by (simp add: encs cov1 szeq)
    next
      case nz2: False
      then have m0: "m mod 8 \<noteq> 0" by (simp add: srd2 srd_eq_0_iff)
      from g(3) [OF nz2 [unfolded srd2_def]] have rt: "region \<noteq> REGION_DATA_RAM_TEXT h" and k10: "10 \<le> k"
        by simp_all
      define E2 where "E2 = (of_nat (k - 2) :: u8)"
      define addr2 where "addr2 = addr + push_bit (k - 2) 1 * ucast blocks"
      define u2 where "u2 = mpu_update_region h (region + 1) addr2 E2 attr enable (NOT srd2) (snd u1)"
      note two = mpu_config_region_two_rounded [OF nz kk False g(1,2) nz2 [unfolded srd2_def] rt k10,
          where addr = addr and attr = attr and enable = enable and s = s, folded req_def s0_def blocks_def E1_def E2_def, folded srd1_def srd2_def addr2_def,
          folded u1_def, unfolded Let_def, folded u2_def]
      have fu1: "fst u1 = EC_SUCCESS"
      proof (rule ccontr)
        assume "fst u1 \<noteq> EC_SUCCESS"
        with two f show False by simp
      qed
      with two have cfg: "mpu_config_region h region addr sz attr enable s = u2" by simp
      with f have fu2: "fst u2 = EC_SUCCESS" by simp
      from mpu_update_region_encodings [OF fu1 [unfolded u1_def] t0, folded u1_def] obtain evs where
        evs: "trace (snd u1) = trace s @ [req] @ evs"
        "encodings_of evs = [\<lparr>enc_region = region, enc_addr = addr, enc_size_bit = E1, enc_attr = attr,
                enc_enable = enable, enc_srd = NOT srd1\<rparr>]" by blast
      from mpu_update_region_encodings [OF fu2 [unfolded u2_def] evs(1), folded u2_def] obtain evs2 where
        evs2: "trace (snd u2) = trace s @ ([req] @ evs) @ evs2"
        "encodings_of evs2 = [\<lparr>enc_region = region + 1, enc_addr = addr2, enc_size_bit = E2, enc_attr = attr,
                enc_enable = enable, enc_srd = NOT srd2\<rparr>]" by blast
      have "new_events s s' = ([req] @ evs) @ evs2"
        by (rule new_events_append) (simp add: s' cfg evs2(1))
      then have encs: "encodings_of (new_events s s') =
         [\<lparr>enc_region = region, enc_addr = addr,
          enc_size_bit = E1, enc_attr = attr, enc_enable = enable, enc_srd = NOT srd1\<rparr>,
          \<lparr>enc_region = region + 1, enc_addr = addr2, enc_size_bit = E2, enc_attr = attr,
                enc_enable = enable, enc_srd = NOT srd2\<rparr>]"
        by (simp add: enc_simp encodings_of_append evs(2) evs2(2))
      note acc = mpu_update_region_accepts [OF fu1 [unfolded u1_def]]
      have k30: "k + 1 < 32" and al: "2 ^ (k + 1) dvd unat addr" using acc(1,2) E1 by simp_all
      have E2: "unat E2 = k - 2" unfolding E2_def using b(1) by (intro unat_of_nat_u8) simp
      have room: "unat addr + 2 ^ (k + 1) \<le> 2 ^ 32" using al k30 by (intro aligned_room) simp_all
      have pk1: "(2::nat) ^ (k + 1) = 8 * 2 ^ (k - 2)"
      proof -
        have "k + 1 = 3 + (k - 2)" using g(1) by simp
        then have "(2::nat) ^ (k + 1) = 2 ^ 3 * 2 ^ (k - 2)" by (metis power_add)
        then show ?thesis by simp
      qed
      have md8: "m div 8 < 8" using ar(3) by linarith
      then have "(m div 8) * 2 ^ (k - 2) < 8 * 2 ^ (k - 2)" by simp
      then have off_lt: "(m div 8) * 2 ^ (k - 2) < 2 ^ (k + 1)" by (simp only: pk1)
      define pb where "pb = (push_bit (k - 2) 1 :: u32)"
      define bl where "bl = (ucast blocks :: u32)"
      have up: "unat pb = 2 ^ (k - 2)"
        using unat_BIT [of "k - 2"] k30 by (simp add: BIT_def pb_def)
      have "take_bit 32 (m div 8) = m div 8" using md8 by (intro take_bit_nat_eq_self) simp
      then have ub32: "unat bl = m div 8"
        using ub by (simp add: unsigned_ucast_eq bl_def)
      have lt32: "(m div 8) * 2 ^ (k - 2) < 2 ^ LENGTH(32)"
        and lt32': "unat addr + (m div 8) * 2 ^ (k - 2) < 2 ^ LENGTH(32)"
        using off_lt room by simp_all
      have "unat pb * unat bl < 2 ^ LENGTH(32)"
        using lt32 by (simp only: up ub32 mult.commute)
      then have "unat (pb * bl) = unat pb * unat bl" by (rule unat_mult_lem [THEN iffD1])
      then have um: "unat (pb * bl) = (m div 8) * 2 ^ (k - 2)"
        by (simp only: up ub32 mult.commute)
      have "unat addr + unat (pb * bl) < 2 ^ LENGTH(32)"
        using lt32' by (simp only: um)
      then have "unat (addr + pb * bl) = unat addr + unat (pb * bl)" by (rule unat_add_lem [THEN iffD1])
      then have ua2: "unat addr2 = unat addr + (m div 8) * 2 ^ (k - 2)"
        unfolding addr2_def pb_def [symmetric] bl_def [symmetric] by (simp only: um)
      have mm: "m mod 8 \<le> 8" by simp
      have E23: "3 \<le> unat E2" "unat E2 - 3 = k - 5" using E2 k10 by simp_all
      have cov2: "enc_covers \<lparr>enc_region = region + 1, enc_addr = addr2, enc_size_bit = E2, enc_attr = attr,
                enc_enable = enable, enc_srd = NOT srd2\<rparr> a \<longleftrightarrow>
         unat addr + (m div 8) * 2 ^ (k - 2) \<le> a \<and>
         a < unat addr + (m div 8) * 2 ^ (k - 2) + (m mod 8) * 2 ^ (k - 5)" for a
        unfolding srd2 using enc_covers_masked [OF en E23(1) mm, of "region + 1" addr2 attr a] E23(2) ua2
        by simp
      have szeq: "unat sz = (m div 8) * 2 ^ (k - 2) + (m mod 8) * 2 ^ (k - 5)"
        unfolding pk2 ar(1) by (rule split_eighths)
      show ?thesis
        by (simp add: encs cov1 cov2 szeq interval_join)
    qed
  qed
qed

text \<open>
  1152 bytes at \<open>0x20000000\<close> in slot 0 of the sample configuration: two encodings (1024
  bytes out of a region of 2048, then 128 bytes out of a region of 256); the last byte of
  the range is protected and the byte after it is not.
\<close>

theorem mpu_config_region_exact_cover_witness:
  "fst (mpu_config_region ex_platform 0 0x20000000 1152 0x1300 1 (ex_state 0x800)) = EC_SUCCESS \<and>
   (1152 :: u32) \<noteq> 0 \<and> (1 :: u8) \<noteq> 0 \<and>
   length (encodings_of (new_events (ex_state 0x800)
     (snd (mpu_config_region ex_platform 0 0x20000000 1152 0x1300 1 (ex_state 0x800))))) = 2 \<and>
   (\<exists>e \<in> set (encodings_of (new_events (ex_state 0x800)
        (snd (mpu_config_region ex_platform 0 0x20000000 1152 0x1300 1 (ex_state 0x800))))).
      enc_covers e (unat (0x20000000 :: u32) + 1151)) \<and>
   \<not> (\<exists>e \<in> set (encodings_of (new_events (ex_state 0x800)
        (snd (mpu_config_region ex_platform 0 0x20000000 1152 0x1300 1 (ex_state 0x800))))).
      enc_covers e (unat (0x20000000 :: u32) + 1152))"
proof -
  let ?c = "mpu_config_region ex_platform 0 0x20000000 1152 0x1300 1 (ex_state 0x800)"
  have f: "fst ?c = EC_SUCCESS" by code_simp
  then have ok: "?c = (EC_SUCCESS, snd ?c)" by (simp add: prod_eq_iff)
  have l: "length (encodings_of (new_events (ex_state 0x800) (snd ?c))) = 2" by code_simp
  have nz: "(1152 :: u32) \<noteq> 0" "(1 :: u8) \<noteq> 0" by simp_all
  from mpu_config_region_exact_cover [OF ok nz] f l nz
  show ?thesis by simp
qed

subsection \<open>The encodings and the registers\<close>

text \<open>
  An accepted request is one accepted call of \<^verbatim>\<open>mpu_update_region\<close>, or two in a
  row for the slot and the next one.
\<close>

lemma mpu_config_region_shape:
  assumes ok: "mpu_config_region h region addr sz attr enable s = (EC_SUCCESS, s')"
      and nz: "sz \<noteq> 0"
  shows "(\<exists>E srd s0.
            fst (mpu_update_region h region addr E attr enable srd s0) = EC_SUCCESS \<and>
            s' = snd (mpu_update_region h region addr E attr enable srd s0) \<and>
            encodings_of (new_events s s') =
              [\<lparr>enc_region = region, enc_addr = addr, enc_size_bit = E, enc_attr = attr,
                enc_enable = enable, enc_srd = srd\<rparr>]) \<or>
         (\<exists>E1 srd1 addr2 E2 srd2 s0.
            fst (mpu_update_region h region addr E1 attr enable srd1 s0) = EC_SUCCESS \<and>
            fst (mpu_update_region h (region + 1) addr2 E2 attr enable srd2
                  (snd (mpu_update_region h region addr E1 attr enable srd1 s0))) = EC_SUCCESS \<and>
            s' = snd (mpu_update_region h (region + 1) addr2 E2 attr enable srd2
                       (snd (mpu_update_region h region addr E1 attr enable srd1 s0))) \<and>
            encodings_of (new_events s s') =
              [\<lparr>enc_region = region, enc_addr = addr, enc_size_bit = E1, enc_attr = attr,
                enc_enable = enable, enc_srd = srd1\<rparr>,
               \<lparr>enc_region = region + 1, enc_addr = addr2, enc_size_bit = E2, enc_attr = attr,
                enc_enable = enable, enc_srd = srd2\<rparr>])"
proof -
  define k where "k = 31 - builtin_clz sz"
  define req where "req = Config_request \<lparr>req_region = region, req_addr = addr, req_size = sz,
                  req_attr = attr, req_enable = enable\<rparr>"
  define s0 where "s0 = emit req s"
  have kk: "31 - builtin_clz sz = k" by (simp add: k_def)
  have f: "fst (mpu_config_region h region addr sz attr enable s) = EC_SUCCESS"
    and s': "s' = snd (mpu_config_region h region addr sz attr enable s)" using ok by simp_all
  have t0: "trace s0 = trace s @ [req]" by (simp add: s0_def emit_def)
  have enc_simp: "encodings_of (req # evs) = encodings_of evs" for evs by (simp add: req_def)
  have single: ?thesis
    if c: "mpu_config_region h region addr sz attr enable s =
             mpu_update_region h region addr E attr enable srd s0" for E srd
  proof -
    from f c have fu: "fst (mpu_update_region h region addr E attr enable srd s0) = EC_SUCCESS" by simp
    from mpu_update_region_encodings [OF fu t0] obtain evs where
      evs: "trace (snd (mpu_update_region h region addr E attr enable srd s0)) = trace s @ [req] @ evs"
        "encodings_of evs = [\<lparr>enc_region = region, enc_addr = addr, enc_size_bit = E, enc_attr = attr,
                enc_enable = enable, enc_srd = srd\<rparr>]" by blast
    have "new_events s s' = [req] @ evs"
      by (rule new_events_append) (simp add: s' c evs(1))
    then have "encodings_of (new_events s s') = [\<lparr>enc_region = region, enc_addr = addr,
        enc_size_bit = E, enc_attr = attr, enc_enable = enable, enc_srd = srd\<rparr>]"
      by (simp add: enc_simp evs(2))
    with fu s' c show ?thesis by auto
  qed
  show ?thesis
  proof (cases "POWER_OF_TWO sz")
    case True
    then have sz: "unat sz = 2 ^ k" using POWER_OF_TWO_imp kk by metis
    have k5: "5 \<le> k"
    proof (rule ccontr)
      assume "\<not> 5 \<le> k"
      with nz kk have "fst (mpu_config_region h region addr sz attr enable s) = Neg_EC_ERROR_INVAL"
        by (simp add: mpu_config_region_def Let_def)
      with f show False by simp
    qed
    show ?thesis
      by (rule single) (rule mpu_config_region_pow2(1) [OF sz k5, where h = h and region = region
            and addr = addr and attr = attr and enable = enable and s = s, folded req_def s0_def])
  next
    case False
    note g = mpu_config_region_rounded_guard [OF nz kk False f]
    define srd2 where "srd2 = (ucast (push_bit (unat (drop_bit (k - 5) sz AND 0x7)) (1::u32) - 1) :: u8)"
    show ?thesis
    proof (cases "srd2 = 0")
      case True
      show ?thesis
        by (rule single)
          (rule mpu_config_region_one_rounded [OF nz kk False g(1,2) True [unfolded srd2_def],
            where h = h and region = region and addr = addr and attr = attr and enable = enable
            and s = s, folded req_def s0_def])
    next
      case nz2: False
      from g(3) [OF nz2 [unfolded srd2_def]] have rt: "region \<noteq> REGION_DATA_RAM_TEXT h" and k10: "10 \<le> k"
        by simp_all
      define E1 where "E1 = (of_nat (k + 1) :: u8)"
      define E2 where "E2 = (of_nat (k - 2) :: u8)"
      define blocks where "blocks = (ucast (drop_bit (k - 2) sz) :: u8)"
      define srd1 where "srd1 = (ucast (BIT (unat blocks) - 1) :: u8)"
      define addr2 where "addr2 = addr + push_bit (k - 2) 1 * ucast blocks"
      define u1 where "u1 = mpu_update_region h region addr E1 attr enable (NOT srd1) s0"
      define u2 where "u2 = mpu_update_region h (region + 1) addr2 E2 attr enable (NOT srd2) (snd u1)"
      note two = mpu_config_region_two_rounded [OF nz kk False g(1,2) nz2 [unfolded srd2_def] rt k10,
          where addr = addr and attr = attr and enable = enable and s = s, folded req_def s0_def blocks_def E1_def E2_def, folded srd1_def srd2_def addr2_def,
          folded u1_def, unfolded Let_def, folded u2_def]
      have fu1: "fst u1 = EC_SUCCESS"
      proof (rule ccontr)
        assume "fst u1 \<noteq> EC_SUCCESS"
        with two f show False by simp
      qed
      with two have cfg: "mpu_config_region h region addr sz attr enable s = u2" by simp
      with f have fu2: "fst u2 = EC_SUCCESS" by simp
      from mpu_update_region_encodings [OF fu1 [unfolded u1_def] t0, folded u1_def] obtain evs where
        evs: "trace (snd u1) = trace s @ [req] @ evs"
        "encodings_of evs = [\<lparr>enc_region = region, enc_addr = addr, enc_size_bit = E1, enc_attr = attr,
                enc_enable = enable, enc_srd = NOT srd1\<rparr>]" by blast
      from mpu_update_region_encodings [OF fu2 [unfolded u2_def] evs(1), folded u2_def] obtain evs2 where
        evs2: "trace (snd u2) = trace s @ ([req] @ evs) @ evs2"
        "encodings_of evs2 = [\<lparr>enc_region = region + 1, enc_addr = addr2, enc_size_bit = E2, enc_attr = attr,
                enc_enable = enable, enc_srd = NOT srd2\<rparr>]" by blast
      have "new_events s s' = ([req] @ evs) @ evs2"
        by (rule new_events_append) (simp add: s' cfg evs2(1))
      then have encs: "encodings_of (new_events s s') =
         [\<lparr>enc_region = region, enc_addr = addr,
          enc_size_bit = E1, enc_attr = attr, enc_enable = enable, enc_srd = NOT srd1\<rparr>,
          \<lparr>enc_region = region + 1, enc_addr = addr2, enc_size_bit = E2, enc_attr = attr,
                enc_enable = enable, enc_srd = NOT srd2\<rparr>]"
        by (simp add: enc_simp encodings_of_append evs(2) evs2(2))
      have "s' = snd u2" using s' cfg by simp
      with fu1 fu2 encs show ?thesis unfolding u1_def u2_def by blast
    qed
  qed
qed

text \<open>
  The encodings of the trace are what the hardware holds: after an accepted request with
  a non-zero enable flag, the registers of the slot of every encoding written during the
  call read back as that encoding, with 1 for the enable flag.
\<close>

lemma mpu_config_region_registers:
  assumes ok: "mpu_config_region h region addr sz attr enable s = (EC_SUCCESS, s')"
      and nz: "sz \<noteq> 0" and en: "enable \<noteq> 0"
  shows "\<forall>e \<in> set (encodings_of (new_events s s')). slot_encoding s' (enc_region e) = e\<lparr>enc_enable := 1\<rparr>"
proof -
  have ne: "region \<noteq> region + 1" by simp
  from mpu_config_region_shape [OF ok nz] show ?thesis
  proof (elim disjE exE conjE)
    fix E srd s0
    assume "fst (mpu_update_region h region addr E attr enable srd s0) = EC_SUCCESS"
      "s' = snd (mpu_update_region h region addr E attr enable srd s0)"
      "encodings_of (new_events s s') =
              [\<lparr>enc_region = region, enc_addr = addr, enc_size_bit = E, enc_attr = attr,
                enc_enable = enable, enc_srd = srd\<rparr>]"
    then show ?thesis by (simp add: mpu_update_region_registers [OF _ en])
  next
    fix E1 srd1 addr2 E2 srd2 s0
    assume a: "fst (mpu_update_region h region addr E1 attr enable srd1 s0) = EC_SUCCESS"
      "fst (mpu_update_region h (region + 1) addr2 E2 attr enable srd2
                  (snd (mpu_update_region h region addr E1 attr enable srd1 s0))) = EC_SUCCESS"
      "s' = snd (mpu_update_region h (region + 1) addr2 E2 attr enable srd2
                       (snd (mpu_update_region h region addr E1 attr enable srd1 s0)))"
      "encodings_of (new_events s s') =
              [\<lparr>enc_region = region, enc_addr = addr, enc_size_bit = E1, enc_attr = attr,
                enc_enable = enable, enc_srd = srd1\<rparr>,
               \<lparr>enc_region = region + 1, enc_addr = addr2, enc_size_bit = E2, enc_attr = attr,
                enc_enable = enable, enc_srd = srd2\<rparr>]"
    have "slot_encoding s' region =
            slot_encoding (snd (mpu_update_region h region addr E1 attr enable srd1 s0)) region"
      unfolding a(3) by (rule mpu_update_region_other_slot [OF ne])
    with a show ?thesis
      by (simp add: mpu_update_region_registers [OF _ en])
  qed
qed

section \<open>Locking the rollback region: \<^verbatim>\<open>mpu_lock_rollback\<close>\<close>

text \<open>
  Claim C8, as amended. The requests that \<^verbatim>\<open>mpu_lock_rollback\<close> issues, all with the
  attributes \<^verbatim>\<open>MPU_ATTR_XN | MPU_ATTR_NO_NO\<close> and the low 8 bits of \<^verbatim>\<open>lock\<close> as enable
  flag. When \<^verbatim>\<open>REGION_ROLLBACK\<close> is below the region count: one request, for the whole
  rollback range in slot \<^verbatim>\<open>REGION_ROLLBACK\<close>. Otherwise a request for the first half
  (size \<open>total div 2\<close>, at the start of the range) in slot \<^verbatim>\<open>REGION_CHIP_RESERVED\<close>;
  when it succeeds, a second request for the second half (the same size, at the start
  plus \<open>total div 2\<close>) in slot \<^verbatim>\<open>REGION_STORAGE2\<close>; when it fails, no further request,
  and its error is the return value.
\<close>

theorem mpu_lock_rollback_requests:
  "(uint (REGION_ROLLBACK h) < mpu_num_regions h s \<longrightarrow>
      requests_of (new_events s (snd (mpu_lock_rollback h lock s))) =
        [\<lparr>req_region = REGION_ROLLBACK h,
          req_addr = CONFIG_MAPPED_STORAGE_BASE h + CONFIG_ROLLBACK_OFF h,
          req_size = CONFIG_ROLLBACK_SIZE h,
          req_attr = MPU_ATTR_XN h OR MPU_ATTR_NO_NO h, req_enable = ucast lock\<rparr>]) \<and>
   (\<not> uint (REGION_ROLLBACK h) < mpu_num_regions h s \<and>
    fst (mpu_config_region h (REGION_CHIP_RESERVED h)
           (CONFIG_MAPPED_STORAGE_BASE h + CONFIG_ROLLBACK_OFF h) (CONFIG_ROLLBACK_SIZE h div 2)
           (MPU_ATTR_XN h OR MPU_ATTR_NO_NO h) (ucast lock) s) = EC_SUCCESS \<longrightarrow>
      requests_of (new_events s (snd (mpu_lock_rollback h lock s))) =
        [\<lparr>req_region = REGION_CHIP_RESERVED h,
          req_addr = CONFIG_MAPPED_STORAGE_BASE h + CONFIG_ROLLBACK_OFF h,
          req_size = CONFIG_ROLLBACK_SIZE h div 2,
          req_attr = MPU_ATTR_XN h OR MPU_ATTR_NO_NO h, req_enable = ucast lock\<rparr>,
         \<lparr>req_region = REGION_STORAGE2 h,
          req_addr = CONFIG_MAPPED_STORAGE_BASE h + CONFIG_ROLLBACK_OFF h + CONFIG_ROLLBACK_SIZE h div 2,
          req_size = CONFIG_ROLLBACK_SIZE h div 2,
          req_attr = MPU_ATTR_XN h OR MPU_ATTR_NO_NO h, req_enable = ucast lock\<rparr>]) \<and>
   (\<not> uint (REGION_ROLLBACK h) < mpu_num_regions h s \<and>
    fst (mpu_config_region h (REGION_CHIP_RESERVED h)
           (CONFIG_MAPPED_STORAGE_BASE h + CONFIG_ROLLBACK_OFF h) (CONFIG_ROLLBACK_SIZE h div 2)
           (MPU_ATTR_XN h OR MPU_ATTR_NO_NO h) (ucast lock) s) \<noteq> EC_SUCCESS \<longrightarrow>
      requests_of (new_events s (snd (mpu_lock_rollback h lock s))) =
        [\<lparr>req_region = REGION_CHIP_RESERVED h,
          req_addr = CONFIG_MAPPED_STORAGE_BASE h + CONFIG_ROLLBACK_OFF h,
          req_size = CONFIG_ROLLBACK_SIZE h div 2,
          req_attr = MPU_ATTR_XN h OR MPU_ATTR_NO_NO h, req_enable = ucast lock\<rparr>] \<and>
      fst (mpu_lock_rollback h lock s) =
        fst (mpu_config_region h (REGION_CHIP_RESERVED h)
           (CONFIG_MAPPED_STORAGE_BASE h + CONFIG_ROLLBACK_OFF h) (CONFIG_ROLLBACK_SIZE h div 2)
           (MPU_ATTR_XN h OR MPU_ATTR_NO_NO h) (ucast lock) s))"
proof -
  let ?start = "CONFIG_MAPPED_STORAGE_BASE h + CONFIG_ROLLBACK_OFF h"
  let ?half = "CONFIG_ROLLBACK_SIZE h div 2"
  let ?attr = "MPU_ATTR_XN h OR MPU_ATTR_NO_NO h"
  let ?c1 = "mpu_config_region h (REGION_CHIP_RESERVED h) ?start ?half ?attr (ucast lock) s"
  let ?c2 = "mpu_config_region h (REGION_STORAGE2 h) (?start + ?half) ?half ?attr (ucast lock) (snd ?c1)"
  from mpu_config_region_effect [of h "REGION_CHIP_RESERVED h" ?start ?half ?attr "ucast lock" s]
  obtain e1 where e1: "trace (snd ?c1) = trace s @ Config_request \<lparr>req_region = REGION_CHIP_RESERVED h,
      req_addr = ?start, req_size = ?half, req_attr = ?attr, req_enable = ucast lock\<rparr> # e1"
      "requests_of e1 = []" by blast
  from mpu_config_region_effect [of h "REGION_STORAGE2 h" "?start + ?half" ?half ?attr "ucast lock" "snd ?c1"]
  obtain e2 where e2: "trace (snd ?c2) = trace (snd ?c1) @ Config_request \<lparr>req_region = REGION_STORAGE2 h,
      req_addr = ?start + ?half, req_size = ?half, req_attr = ?attr, req_enable = ucast lock\<rparr> # e2"
      "requests_of e2 = []" by blast
  have two: "requests_of (new_events s (snd ?c2)) =
      [\<lparr>req_region = REGION_CHIP_RESERVED h,
      req_addr = ?start, req_size = ?half, req_attr = ?attr, req_enable = ucast lock\<rparr>,
       \<lparr>req_region = REGION_STORAGE2 h,
      req_addr = ?start + ?half, req_size = ?half, req_attr = ?attr, req_enable = ucast lock\<rparr>]"
    using e1 e2 by (simp add: new_events_def requests_of_append)
  show ?thesis
    using two
    by (auto simp add: mpu_lock_rollback_def Let_def mpu_config_region_requests split_beta)
qed

text \<open>
  On the sample configuration: with 16 regions the one request for 256 KiB; with 8
  regions the two requests of 128 KiB each; and, when the range starts at an odd multiple
  of 64 KiB (\<open>ex_platform_64k\<close>), the first request alone, which fails.
\<close>

theorem mpu_lock_rollback_requests_witness:
  "uint (REGION_ROLLBACK ex_platform) < mpu_num_regions ex_platform (ex_state 0x1000) \<and>
   requests_of (new_events (ex_state 0x1000) (snd (mpu_lock_rollback ex_platform 1 (ex_state 0x1000)))) =
     [\<lparr>req_region = 10, req_addr = 0x08020000, req_size = 0x40000, req_attr = 0x1000,
       req_enable = 1\<rparr>] \<and>
   \<not> uint (REGION_ROLLBACK ex_platform) < mpu_num_regions ex_platform (ex_state 0x800) \<and>
   fst (mpu_config_region ex_platform (REGION_CHIP_RESERVED ex_platform)
         (CONFIG_MAPPED_STORAGE_BASE ex_platform + CONFIG_ROLLBACK_OFF ex_platform)
         (CONFIG_ROLLBACK_SIZE ex_platform div 2)
         (MPU_ATTR_XN ex_platform OR MPU_ATTR_NO_NO ex_platform) (ucast (1 :: 32 word))
         (ex_state 0x800)) = EC_SUCCESS \<and>
   requests_of (new_events (ex_state 0x800) (snd (mpu_lock_rollback ex_platform 1 (ex_state 0x800)))) =
     [\<lparr>req_region = 7, req_addr = 0x08020000, req_size = 0x20000, req_attr = 0x1000,
       req_enable = 1\<rparr>,
      \<lparr>req_region = 5, req_addr = 0x08040000, req_size = 0x20000, req_attr = 0x1000,
       req_enable = 1\<rparr>] \<and>
   \<not> uint (REGION_ROLLBACK ex_platform_64k) < mpu_num_regions ex_platform_64k (ex_state 0x800) \<and>
   fst (mpu_config_region ex_platform_64k (REGION_CHIP_RESERVED ex_platform_64k)
         (CONFIG_MAPPED_STORAGE_BASE ex_platform_64k + CONFIG_ROLLBACK_OFF ex_platform_64k)
         (CONFIG_ROLLBACK_SIZE ex_platform_64k div 2)
         (MPU_ATTR_XN ex_platform_64k OR MPU_ATTR_NO_NO ex_platform_64k) (ucast (1 :: 32 word))
         (ex_state 0x800)) \<noteq> EC_SUCCESS \<and>
   requests_of (new_events (ex_state 0x800)
       (snd (mpu_lock_rollback ex_platform_64k 1 (ex_state 0x800)))) =
     [\<lparr>req_region = 7, req_addr = 0x08010000, req_size = 0x20000, req_attr = 0x1000,
       req_enable = 1\<rparr>] \<and>
   fst (mpu_lock_rollback ex_platform_64k 1 (ex_state 0x800)) = Neg_EC_ERROR_INVAL"
proof -
  have a: "uint (REGION_ROLLBACK ex_platform) < mpu_num_regions ex_platform (ex_state 0x1000)"
    by code_simp
  have b: "\<not> uint (REGION_ROLLBACK ex_platform) < mpu_num_regions ex_platform (ex_state 0x800)"
    "fst (mpu_config_region ex_platform (REGION_CHIP_RESERVED ex_platform)
         (CONFIG_MAPPED_STORAGE_BASE ex_platform + CONFIG_ROLLBACK_OFF ex_platform)
         (CONFIG_ROLLBACK_SIZE ex_platform div 2)
         (MPU_ATTR_XN ex_platform OR MPU_ATTR_NO_NO ex_platform) (ucast (1 :: 32 word))
         (ex_state 0x800)) = EC_SUCCESS"
    by code_simp+
  have c: "\<not> uint (REGION_ROLLBACK ex_platform_64k) < mpu_num_regions ex_platform_64k (ex_state 0x800)"
    "fst (mpu_config_region ex_platform_64k (REGION_CHIP_RESERVED ex_platform_64k)
         (CONFIG_MAPPED_STORAGE_BASE ex_platform_64k + CONFIG_ROLLBACK_OFF ex_platform_64k)
         (CONFIG_ROLLBACK_SIZE ex_platform_64k div 2)
         (MPU_ATTR_XN ex_platform_64k OR MPU_ATTR_NO_NO ex_platform_64k) (ucast (1 :: 32 word))
         (ex_state 0x800)) = Neg_EC_ERROR_INVAL"
    by code_simp+
  have v: "REGION_ROLLBACK ex_platform = 10" "REGION_CHIP_RESERVED ex_platform = 7"
    "REGION_STORAGE2 ex_platform = 5"
    "CONFIG_MAPPED_STORAGE_BASE ex_platform + CONFIG_ROLLBACK_OFF ex_platform = 0x08020000"
    "CONFIG_ROLLBACK_SIZE ex_platform = 0x40000"
    "MPU_ATTR_XN ex_platform OR MPU_ATTR_NO_NO ex_platform = 0x1000"
    "REGION_CHIP_RESERVED ex_platform_64k = 7"
    "CONFIG_MAPPED_STORAGE_BASE ex_platform_64k + CONFIG_ROLLBACK_OFF ex_platform_64k = 0x08010000"
    "CONFIG_ROLLBACK_SIZE ex_platform_64k = 0x40000"
    "MPU_ATTR_XN ex_platform_64k OR MPU_ATTR_NO_NO ex_platform_64k = 0x1000"
    by (simp_all add: ex_platform_def ex_platform_64k_def)
  from mpu_lock_rollback_requests [of ex_platform "ex_state 0x1000" 1]
    mpu_lock_rollback_requests [of ex_platform "ex_state 0x800" 1]
    mpu_lock_rollback_requests [of ex_platform_64k "ex_state 0x800" 1] a b c
  show ?thesis by (simp add: v)
qed

text \<open>
  Claim C8 as stated fails where the first half is refused: on \<open>ex_platform_64k\<close> with 8
  regions \<^verbatim>\<open>REGION_ROLLBACK\<close> is not available, the range starts at \<open>0x08010000\<close>, which
  is no multiple of the half size \<open>0x20000\<close>, and one request is issued, not two.
\<close>

theorem mpu_lock_rollback_requests_counterexample:
  "\<not> uint (REGION_ROLLBACK ex_platform_64k) < mpu_num_regions ex_platform_64k (ex_state 0x800) \<and>
   requests_of (new_events (ex_state 0x800)
       (snd (mpu_lock_rollback ex_platform_64k 1 (ex_state 0x800)))) =
     [\<lparr>req_region = 7, req_addr = 0x08010000, req_size = 0x20000, req_attr = 0x1000,
       req_enable = 1\<rparr>] \<and>
   fst (mpu_lock_rollback ex_platform_64k 1 (ex_state 0x800)) = Neg_EC_ERROR_INVAL"
proof (intro conjI)
  show "\<not> uint (REGION_ROLLBACK ex_platform_64k) < mpu_num_regions ex_platform_64k (ex_state 0x800)"
    by code_simp
  show "requests_of (new_events (ex_state 0x800)
          (snd (mpu_lock_rollback ex_platform_64k 1 (ex_state 0x800)))) =
        [\<lparr>req_region = 7, req_addr = 0x08010000, req_size = 0x20000, req_attr = 0x1000,
          req_enable = 1\<rparr>]"
    by code_simp
  show "fst (mpu_lock_rollback ex_platform_64k 1 (ex_state 0x800)) = Neg_EC_ERROR_INVAL"
    by code_simp
qed

section \<open>The boot sequence: \<^verbatim>\<open>mpu_pre_init\<close>\<close>

text \<open>
  Claim C9. When the region count read from the type register is 0, \<^verbatim>\<open>mpu_pre_init\<close>
  returns \<^verbatim>\<open>EC_ERROR_HW_INTERNAL\<close> (no MPU). When the count is not 0 and the map is not
  unified or the count is neither 8 nor 16, it returns \<^verbatim>\<open>EC_ERROR_UNIMPLEMENTED\<close>
  (unsupported topology). In both cases the state returned is the state given: the
  function returns before any store to a register, so the trace has no new event.
\<close>

theorem mpu_pre_init_rejects_topology:
  "(mpu_num_regions h s = 0 \<longrightarrow> mpu_pre_init h s = (EC_ERROR_HW_INTERNAL, s)) \<and>
   (mpu_num_regions h s \<noteq> 0 \<and> (\<not> mpu_is_unified h s \<or> mpu_num_regions h s \<notin> {8, 16})
      \<longrightarrow> mpu_pre_init h s = (EC_ERROR_UNIMPLEMENTED, s))"
  by (auto simp add: mpu_pre_init_def has_mpu_def Let_def)

text \<open>
  On the sample configuration: a type register that reports no region, one that reports
  12 unified regions, and one that reports 8 regions with separate maps.
\<close>

theorem mpu_pre_init_rejects_topology_witness:
  "mpu_num_regions ex_platform (ex_state 0) = 0 \<and>
   mpu_pre_init ex_platform (ex_state 0) = (EC_ERROR_HW_INTERNAL, ex_state 0) \<and>
   mpu_num_regions ex_platform (ex_state 0xC00) = 12 \<and> mpu_is_unified ex_platform (ex_state 0xC00) \<and>
   mpu_pre_init ex_platform (ex_state 0xC00) = (EC_ERROR_UNIMPLEMENTED, ex_state 0xC00) \<and>
   mpu_num_regions ex_platform (ex_state 0x801) = 8 \<and> \<not> mpu_is_unified ex_platform (ex_state 0x801) \<and>
   mpu_pre_init ex_platform (ex_state 0x801) = (EC_ERROR_UNIMPLEMENTED, ex_state 0x801)"
proof -
  have a: "mpu_num_regions ex_platform (ex_state 0) = 0"
    by (simp add: mpu_num_regions_def mpu_get_type_def ex_platform_def ex_state_def)
  have b: "mpu_num_regions ex_platform (ex_state 0xC00) = 12"
      "mpu_is_unified ex_platform (ex_state 0xC00)"
    by (simp_all add: mpu_num_regions_def mpu_is_unified_def mpu_get_type_def ex_platform_def
        ex_state_def)
  have c: "mpu_num_regions ex_platform (ex_state 0x801) = 8"
      "\<not> mpu_is_unified ex_platform (ex_state 0x801)"
    by (simp_all add: mpu_num_regions_def mpu_is_unified_def mpu_get_type_def ex_platform_def
        ex_state_def)
  from mpu_pre_init_rejects_topology [of ex_platform "ex_state 0"]
    mpu_pre_init_rejects_topology [of ex_platform "ex_state 0xC00"]
    mpu_pre_init_rejects_topology [of ex_platform "ex_state 0x801"] a b c
  show ?thesis by simp
qed

end
